theory Spec2Isabelle
  imports Main "HOL-Library.AList" "HOL-Library.Char_ord" "HOL-Library.List_Lexorder"
begin

section \<open>Python values\<close>

text \<open>
  The values that flow through both components: tape payloads are data read back from the
  persisted log, keyword arguments are data decoded from a model's tool call. A Python
  \<^verbatim>\<open>dict\<close> with string keys is an association list (insertion order is what
  \<^verbatim>\<open>json.dumps\<close> prints), a \<^verbatim>\<open>list\<close> is a list. \<open>PObj r\<close> is any other object
  (an execution context, a handle): \<^verbatim>\<open>json.dumps\<close> raises \<^verbatim>\<open>TypeError\<close> on it, and
  \<open>r\<close> is the text that \<^verbatim>\<open>str\<close> and \<^verbatim>\<open>repr\<close> give for it. Floats are left out.
\<close>

datatype pyval =
    PNone
  | PBool bool
  | PInt int
  | PStr string
  | PList "pyval list"
  | PDict "(string \<times> pyval) list"
  | PObj string

type_synonym pydict = "(string \<times> pyval) list"

datatype error =
    KeyError string
  | ValueError string
  | TypeError
  | AttributeError
  | ToolFailure string

text \<open>\<^verbatim>\<open>d.get(key)\<close>: the value stored under the key, \<^verbatim>\<open>None\<close> when it is absent.\<close>

definition dict_get :: "pydict \<Rightarrow> string \<Rightarrow> pyval" where
  "dict_get d key = (case map_of d key of None \<Rightarrow> PNone | Some v \<Rightarrow> v)"

text \<open>
  \<^verbatim>\<open>d[key] = v\<close>: an existing key keeps its position and takes the new value, a new key
  goes to the end. \<^verbatim>\<open>d.update(other)\<close> stores the items of \<^verbatim>\<open>other\<close> one by one.
\<close>

definition dict_set :: "pydict \<Rightarrow> string \<Rightarrow> pyval \<Rightarrow> pydict" where
  "dict_set d key v = AList.update key v d"

definition dict_update :: "pydict \<Rightarrow> pydict \<Rightarrow> pydict" where
  "dict_update d other = foldl (\<lambda>acc (k, v). dict_set acc k v) d other"

section \<open>The JSON library\<close>

text \<open>
  \<^verbatim>\<open>json.dumps(value, ensure_ascii=False)\<close> of the Python standard library, with its
  default separators \<^verbatim>\<open>", "\<close> and \<^verbatim>\<open>": "\<close>. Inside a string literal the encoder escapes
  the backslash, the double quote and the control characters below \<^verbatim>\<open>0x20\<close>
  (\<^verbatim>\<open>\b \f \n \r \t\<close> by name, the others as \<^verbatim>\<open>\u00XX\<close>); every other character is
  copied. \<open>None\<close> is the \<^verbatim>\<open>TypeError\<close> raised for an object that is not serialisable.
\<close>

definition digit_char :: "nat \<Rightarrow> char" where
  "digit_char d = ''0123456789abcdef'' ! d"

fun dec_nat :: "nat \<Rightarrow> string" where
  "dec_nat n = (if n < 10 then [digit_char n] else dec_nat (n div 10) @ [digit_char (n mod 10)])"

definition dec_int :: "int \<Rightarrow> string" where
  "dec_int i = (if i < 0 then CHR ''-'' # dec_nat (nat (- i)) else dec_nat (nat i))"

definition escape_char :: "char \<Rightarrow> string" where
  "escape_char c =
     (if c = CHR 0x5C then [CHR 0x5C, CHR 0x5C]
      else if c = CHR 0x22 then [CHR 0x5C, CHR 0x22]
      else if c = CHR 0x08 then [CHR 0x5C, CHR ''b'']
      else if c = CHR 0x0C then [CHR 0x5C, CHR ''f'']
      else if c = CHR 0x0A then [CHR 0x5C, CHR ''n'']
      else if c = CHR 0x0D then [CHR 0x5C, CHR ''r'']
      else if c = CHR 0x09 then [CHR 0x5C, CHR ''t'']
      else if (of_char c :: nat) < 32
        then [CHR 0x5C, CHR ''u'', CHR ''0'', CHR ''0'',
              digit_char ((of_char c :: nat) div 16), digit_char ((of_char c :: nat) mod 16)]
      else [c])"

definition encode_basestring :: "string \<Rightarrow> string" where
  "encode_basestring s = CHR 0x22 # concat (map escape_char s) @ [CHR 0x22]"

fun join :: "string \<Rightarrow> string list \<Rightarrow> string" where
  "join sep [] = []"
| "join sep [x] = x"
| "join sep (x # y # ys) = x @ sep @ join sep (y # ys)"

fun json_dumps :: "pyval \<Rightarrow> string option"
  and dumps_items :: "pyval list \<Rightarrow> string list option"
  and dumps_pairs :: "(string \<times> pyval) list \<Rightarrow> string list option" where
  "json_dumps PNone = Some ''null''"
| "json_dumps (PBool b) = Some (if b then ''true'' else ''false'')"
| "json_dumps (PInt i) = Some (dec_int i)"
| "json_dumps (PStr s) = Some (encode_basestring s)"
| "json_dumps (PList xs) =
     (case dumps_items xs of None \<Rightarrow> None
      | Some ss \<Rightarrow> Some (''['' @ join '', '' ss @ '']''))"
| "json_dumps (PDict kvs) =
     (case dumps_pairs kvs of None \<Rightarrow> None
      | Some ss \<Rightarrow> Some (''{'' @ join '', '' ss @ ''}''))"
| "json_dumps (PObj r) = None"
| "dumps_items [] = Some []"
| "dumps_items (x # xs) =
     (case json_dumps x of None \<Rightarrow> None
      | Some s \<Rightarrow> (case dumps_items xs of None \<Rightarrow> None | Some ss \<Rightarrow> Some (s # ss)))"
| "dumps_pairs [] = Some []"
| "dumps_pairs (kv # kvs) =
     (case json_dumps (snd kv) of None \<Rightarrow> None
      | Some s \<Rightarrow>
          (case dumps_pairs kvs of None \<Rightarrow> None
           | Some ss \<Rightarrow> Some ((encode_basestring (fst kv) @ '': '' @ s) # ss)))"

text \<open>
  \<^verbatim>\<open>repr(value)\<close>, which is also \<^verbatim>\<open>str(value)\<close> for every value that is not a string.
  A string is quoted with \<^verbatim>\<open>'\<close>, or with \<^verbatim>\<open>"\<close> when it holds a \<^verbatim>\<open>'\<close> and no \<^verbatim>\<open>"\<close>; the
  backslash, the quote, tab, newline and carriage return are escaped by name, the other
  ASCII control characters as \<^verbatim>\<open>\xNN\<close>. The bytes of non-ASCII characters are copied,
  as \<^verbatim>\<open>repr\<close> does for printable characters.
\<close>

definition repr_char :: "char \<Rightarrow> char \<Rightarrow> string" where
  "repr_char quote c =
     (if c = quote \<or> c = CHR 0x5C then [CHR 0x5C, c]
      else if c = CHR 0x09 then [CHR 0x5C, CHR ''t'']
      else if c = CHR 0x0A then [CHR 0x5C, CHR ''n'']
      else if c = CHR 0x0D then [CHR 0x5C, CHR ''r'']
      else if (of_char c :: nat) < 32 \<or> c = CHR 0x7F
        then [CHR 0x5C, CHR ''x'',
              digit_char ((of_char c :: nat) div 16), digit_char ((of_char c :: nat) mod 16)]
      else [c])"

definition repr_str :: "string \<Rightarrow> string" where
  "repr_str s =
     (let quote = (if CHR 0x27 \<in> set s \<and> CHR 0x22 \<notin> set s then CHR 0x22 else CHR 0x27)
      in quote # concat (map (repr_char quote) s) @ [quote])"

fun py_repr :: "pyval \<Rightarrow> string"
  and repr_items :: "pyval list \<Rightarrow> string list"
  and repr_pairs :: "(string \<times> pyval) list \<Rightarrow> string list" where
  "py_repr PNone = ''None''"
| "py_repr (PBool b) = (if b then ''True'' else ''False'')"
| "py_repr (PInt i) = dec_int i"
| "py_repr (PStr s) = repr_str s"
| "py_repr (PList xs) = ''['' @ join '', '' (repr_items xs) @ '']''"
| "py_repr (PDict kvs) = ''{'' @ join '', '' (repr_pairs kvs) @ ''}''"
| "py_repr (PObj r) = r"
| "repr_items [] = []"
| "repr_items (x # xs) = py_repr x # repr_items xs"
| "repr_pairs [] = []"
| "repr_pairs (kv # kvs) = (repr_str (fst kv) @ '': '' @ py_repr (snd kv)) # repr_pairs kvs"

text \<open>
  \<^verbatim>\<open>json.loads(text)\<close>, as far as the compiler uses it: whether the text is accepted or
  the decoder raises \<^verbatim>\<open>JSONDecodeError\<close>. The decoder's grammar is read off its scanner
  and run here as a machine over the characters, with the stack of the open arrays and
  objects: whitespace is blank, tab, newline or carriage return; a number is
  \<^verbatim>\<open>-?(0|[1-9][0-9]*)(\.[0-9]+)?([eE][-+]?[0-9]+)?\<close>; the literals are \<^verbatim>\<open>true\<close>,
  \<^verbatim>\<open>false\<close>, \<^verbatim>\<open>null\<close> and the decoder's \<^verbatim>\<open>NaN\<close>, \<^verbatim>\<open>Infinity\<close>, \<^verbatim>\<open>-Infinity\<close>; a string
  literal holds no raw control character, and after a backslash one of
  \<^verbatim>\<open>" \ / b f n r t\<close> or \<^verbatim>\<open>u\<close> with four hexadecimal digits. Text left after the
  value, other than whitespace, is an error. The interpreter's limits are not part of the
  grammar and are not modelled: the configurable bound on the number of digits of an
  integer converted from or to text (4300 by default), beyond which the decoder and the
  encoder raise \<^verbatim>\<open>ValueError\<close>, and the recursion limit for deeply nested text.
\<close>

datatype frame = InArr | InObj

datatype num_state = NMinus | NZero | NInt | NDot | NFrac | NExp | NExpSign | NExpDig

datatype jstate =
    JValue "frame list"
  | JValueOrClose "frame list"
  | JKey "frame list"
  | JKeyOrClose "frame list"
  | JColon "frame list"
  | JAfter "frame list"
  | JString bool "frame list"
  | JEscape bool "frame list"
  | JHex nat bool "frame list"
  | JLiteral string "frame list"
  | JNumber num_state "frame list"

definition is_ws :: "char \<Rightarrow> bool" where
  "is_ws c = (c = CHR '' '' \<or> c = CHR 0x09 \<or> c = CHR 0x0A \<or> c = CHR 0x0D)"

definition is_digit :: "char \<Rightarrow> bool" where
  "is_digit c = (c \<in> set ''0123456789'')"

definition is_hex :: "char \<Rightarrow> bool" where
  "is_hex c = (c \<in> set ''0123456789abcdefABCDEF'')"

text \<open>The first character of a value, inside the containers \<open>stk\<close>.\<close>

definition start_value :: "frame list \<Rightarrow> char \<Rightarrow> jstate option" where
  "start_value stk c =
     (if c = CHR 0x22 then Some (JString False stk)
      else if c = CHR ''{'' then Some (JKeyOrClose stk)
      else if c = CHR ''['' then Some (JValueOrClose stk)
      else if c = CHR ''t'' then Some (JLiteral ''rue'' stk)
      else if c = CHR ''f'' then Some (JLiteral ''alse'' stk)
      else if c = CHR ''n'' then Some (JLiteral ''ull'' stk)
      else if c = CHR ''N'' then Some (JLiteral ''aN'' stk)
      else if c = CHR ''I'' then Some (JLiteral ''nfinity'' stk)
      else if c = CHR ''-'' then Some (JNumber NMinus stk)
      else if c = CHR ''0'' then Some (JNumber NZero stk)
      else if is_digit c then Some (JNumber NInt stk)
      else None)"

text \<open>The character after a complete value, inside the containers \<open>stk\<close>.\<close>

definition after_value :: "frame list \<Rightarrow> char \<Rightarrow> jstate option" where
  "after_value stk c =
     (if is_ws c then Some (JAfter stk)
      else case stk of
             [] \<Rightarrow> None
           | InArr # outer \<Rightarrow>
               if c = CHR '','' then Some (JValue stk)
               else if c = CHR '']'' then Some (JAfter outer) else None
           | InObj # outer \<Rightarrow>
               if c = CHR '','' then Some (JKey stk)
               else if c = CHR ''}'' then Some (JAfter outer) else None)"

definition number_step :: "num_state \<Rightarrow> frame list \<Rightarrow> char \<Rightarrow> jstate option" where
  "number_step k stk c =
     (case k of
        NMinus \<Rightarrow>
          if c = CHR ''0'' then Some (JNumber NZero stk)
          else if is_digit c then Some (JNumber NInt stk)
          else if c = CHR ''I'' then Some (JLiteral ''nfinity'' stk)
          else None
      | NZero \<Rightarrow>
          if c = CHR ''.'' then Some (JNumber NDot stk)
          else if c = CHR ''e'' \<or> c = CHR ''E'' then Some (JNumber NExp stk)
          else after_value stk c
      | NInt \<Rightarrow>
          if is_digit c then Some (JNumber NInt stk)
          else if c = CHR ''.'' then Some (JNumber NDot stk)
          else if c = CHR ''e'' \<or> c = CHR ''E'' then Some (JNumber NExp stk)
          else after_value stk c
      | NDot \<Rightarrow> if is_digit c then Some (JNumber NFrac stk) else None
      | NFrac \<Rightarrow>
          if is_digit c then Some (JNumber NFrac stk)
          else if c = CHR ''e'' \<or> c = CHR ''E'' then Some (JNumber NExp stk)
          else after_value stk c
      | NExp \<Rightarrow>
          if c = CHR ''+'' \<or> c = CHR ''-'' then Some (JNumber NExpSign stk)
          else if is_digit c then Some (JNumber NExpDig stk)
          else None
      | NExpSign \<Rightarrow> if is_digit c then Some (JNumber NExpDig stk) else None
      | NExpDig \<Rightarrow> if is_digit c then Some (JNumber NExpDig stk) else after_value stk c)"

fun scan_step :: "jstate \<Rightarrow> char \<Rightarrow> jstate option" where
  "scan_step (JValue stk) c = (if is_ws c then Some (JValue stk) else start_value stk c)"
| "scan_step (JValueOrClose outer) c =
     (if is_ws c then Some (JValueOrClose outer)
      else if c = CHR '']'' then Some (JAfter outer)
      else start_value (InArr # outer) c)"
| "scan_step (JKey stk) c =
     (if is_ws c then Some (JKey stk)
      else if c = CHR 0x22 then Some (JString True stk) else None)"
| "scan_step (JKeyOrClose outer) c =
     (if is_ws c then Some (JKeyOrClose outer)
      else if c = CHR ''}'' then Some (JAfter outer)
      else if c = CHR 0x22 then Some (JString True (InObj # outer)) else None)"
| "scan_step (JColon stk) c =
     (if is_ws c then Some (JColon stk)
      else if c = CHR '':'' then Some (JValue stk) else None)"
| "scan_step (JAfter stk) c = after_value stk c"
| "scan_step (JString key stk) c =
     (if c = CHR 0x22 then Some (if key then JColon stk else JAfter stk)
      else if c = CHR 0x5C then Some (JEscape key stk)
      else if (of_char c :: nat) < 32 then None
      else Some (JString key stk))"
| "scan_step (JEscape key stk) c =
     (if c \<in> set [CHR 0x22, CHR 0x5C, CHR ''/'', CHR ''b'', CHR ''f'', CHR ''n'', CHR ''r'', CHR ''t'']
      then Some (JString key stk)
      else if c = CHR ''u'' then Some (JHex 4 key stk) else None)"
| "scan_step (JHex n key stk) c =
     (if is_hex c then Some (if n \<le> 1 then JString key stk else JHex (n - 1) key stk)
      else None)"
| "scan_step (JLiteral lit stk) c =
     (case lit of
        [] \<Rightarrow> None
      | x # more \<Rightarrow>
          if c = x then Some (if more = [] then JAfter stk else JLiteral more stk) else None)"
| "scan_step (JNumber k stk) c = number_step k stk c"

fun scan :: "jstate \<Rightarrow> string \<Rightarrow> jstate option" where
  "scan st [] = Some st"
| "scan st (c # cs) = (case scan_step st c of None \<Rightarrow> None | Some st' \<Rightarrow> scan st' cs)"

text \<open>The end of the text: a complete value and no open container.\<close>

fun accepting :: "jstate \<Rightarrow> bool" where
  "accepting (JAfter stk) = (stk = [])"
| "accepting (JNumber k stk) = (stk = [] \<and> k \<in> {NZero, NInt, NFrac, NExpDig})"
| "accepting _ = False"

definition json_loads_ok :: "string \<Rightarrow> bool" where
  "json_loads_ok text = (case scan (JValue []) text of None \<Rightarrow> False | Some st \<Rightarrow> accepting st)"

section \<open>Notions for reasoning about the decoder\<close>

text \<open>
  The state of the machine after a complete value inside the containers \<open>stk\<close>, as the
  encoder's output leaves it: after a closed string, literal, array or object, or inside
  an integer that the next character ends.
\<close>

definition done_like :: "jstate \<Rightarrow> frame list \<Rightarrow> bool" where
  "done_like st stk = (st = JAfter stk \<or> st = JNumber NZero stk \<or> st = JNumber NInt stk)"

definition value_ok :: "frame list \<Rightarrow> string \<Rightarrow> bool" where
  "value_ok stk s =
     (\<exists>c cs st0 st'. s = c # cs \<and> start_value stk c = Some st0 \<and> scan st0 cs = Some st'
        \<and> done_like st' stk)"

text \<open>An object member as the encoder prints it: the key, \<^verbatim>\<open>": "\<close> and a value.\<close>

definition pair_ok :: "string \<Rightarrow> bool" where
  "pair_ok p = (\<exists>k s. p = encode_basestring k @ '': '' @ s \<and> (\<forall>stk. value_ok stk s))"

section \<open>Tape compiler\<close>

text \<open>
  A \<^verbatim>\<open>TapeEntry\<close> of the \<^verbatim>\<open>republic\<close> library, as far as the compiler reads it: its
  \<^verbatim>\<open>kind\<close> and its \<^verbatim>\<open>payload\<close>. \<^verbatim>\<open>payload.get(key)\<close> is the dict lookup; on a payload
  that is not a dict the attribute access raises.
\<close>

record entry =
  kind :: string
  payload :: pyval

definition payload_get :: "pyval \<Rightarrow> string \<Rightarrow> error + pyval" where
  "payload_get p key = (case p of PDict d \<Rightarrow> Inr (dict_get d key) | _ \<Rightarrow> Inl AttributeError)"

text \<open>
  \<^verbatim>\<open>_sanitize_tool_call(call)\<close>, read by value: the call that is returned. The function
  dict is the object stored under \<^verbatim>\<open>call["function"]\<close>, so the assignment to
  \<^verbatim>\<open>function["arguments"]\<close> shows in the returned call. \<^verbatim>\<open>json.dumps\<close> is not guarded
  here: its \<^verbatim>\<open>TypeError\<close> leaves the function.
\<close>

definition set_arguments :: "pydict \<Rightarrow> pydict \<Rightarrow> string \<Rightarrow> pydict" where
  "set_arguments call function text =
     dict_set call ''function'' (PDict (dict_set function ''arguments'' (PStr text)))"

definition sanitize_tool_call :: "pydict \<Rightarrow> error + pydict" where
  "sanitize_tool_call call =
     (case dict_get call ''function'' of
        PDict function \<Rightarrow>
          (case dict_get function ''arguments'' of
             PDict args \<Rightarrow>
               (case json_dumps (PDict args) of
                  None \<Rightarrow> Inl TypeError
                | Some text \<Rightarrow> Inr (set_arguments call function text))
           | PStr args \<Rightarrow>
               if json_loads_ok args then Inr call
               else Inr (set_arguments call function ''{}'')
           | PNone \<Rightarrow> Inr (set_arguments call function ''{}'')
           | _ \<Rightarrow> Inr call)
      | _ \<Rightarrow> Inr call)"

text \<open>\<^verbatim>\<open>_normalize_tool_calls(value)\<close>: the loop over the items, with the list built so far.\<close>

fun normalize_loop :: "pyval list \<Rightarrow> pydict list \<Rightarrow> error + pydict list" where
  "normalize_loop [] calls = Inr calls"
| "normalize_loop (item # items) calls =
     (case item of
        PDict d \<Rightarrow>
          (case sanitize_tool_call d of
             Inl e \<Rightarrow> Inl e
           | Inr call \<Rightarrow> normalize_loop items (calls @ [call]))
      | _ \<Rightarrow> normalize_loop items calls)"

definition normalize_tool_calls :: "pyval \<Rightarrow> error + pydict list" where
  "normalize_tool_calls v = (case v of PList items \<Rightarrow> normalize_loop items [] | _ \<Rightarrow> Inr [])"

definition append_message_entry :: "pyval list \<Rightarrow> entry \<Rightarrow> pyval list" where
  "append_message_entry messages e =
     (case payload e of PDict d \<Rightarrow> messages @ [PDict d] | _ \<Rightarrow> messages)"

text \<open>\<^verbatim>\<open>_append_tool_call_entry\<close>: the messages afterwards and the calls it returns.\<close>

definition append_tool_call_entry :: "pyval list \<Rightarrow> entry \<Rightarrow> error + (pyval list \<times> pydict list)" where
  "append_tool_call_entry messages e =
     (case payload_get (payload e) ''calls'' of
        Inl err \<Rightarrow> Inl err
      | Inr v \<Rightarrow>
          (case normalize_tool_calls v of
             Inl err \<Rightarrow> Inl err
           | Inr calls \<Rightarrow>
               Inr (if calls \<noteq> []
                    then messages @ [PDict [(''role'', PStr ''assistant''), (''content'', PStr []),
                                            (''tool_calls'', PList (map PDict calls))]]
                    else messages,
                    calls)))"

definition render_tool_result :: "pyval \<Rightarrow> string" where
  "render_tool_result result =
     (case result of
        PStr text \<Rightarrow> text
      | _ \<Rightarrow> (case json_dumps result of Some text \<Rightarrow> text | None \<Rightarrow> py_repr result))"

definition build_tool_result_message :: "pyval \<Rightarrow> pydict list \<Rightarrow> nat \<Rightarrow> pydict" where
  "build_tool_result_message result pending_calls index =
     (let message = [(''role'', PStr ''tool''), (''content'', PStr (render_tool_result result))]
      in if index \<ge> length pending_calls then message
         else
           let call = pending_calls ! index;
               message1 =
                 (case dict_get call ''id'' of
                    PStr call_id \<Rightarrow>
                      if call_id \<noteq> [] then dict_set message ''tool_call_id'' (PStr call_id)
                      else message
                  | _ \<Rightarrow> message)
           in case dict_get call ''function'' of
                PDict function \<Rightarrow>
                  (case dict_get function ''name'' of
                     PStr nm \<Rightarrow> if nm \<noteq> [] then dict_set message1 ''name'' (PStr nm) else message1
                   | _ \<Rightarrow> message1)
              | _ \<Rightarrow> message1)"

definition append_tool_result_entry ::
  "pyval list \<Rightarrow> pydict list \<Rightarrow> entry \<Rightarrow> error + pyval list" where
  "append_tool_result_entry messages pending_calls e =
     (case payload_get (payload e) ''results'' of
        Inl err \<Rightarrow> Inl err
      | Inr (PList results) \<Rightarrow>
          Inr (messages @
               map (\<lambda>(index, result). PDict (build_tool_result_message result pending_calls index))
                 (enumerate 0 results))
      | Inr _ \<Rightarrow> Inr messages)"

text \<open>
  \<^verbatim>\<open>_select_messages(entries, _context)\<close>: one turn of the loop on the pair of the message
  list and the pending calls, and the loop. An exception leaves the loop.
\<close>

definition select_step ::
  "pyval list \<times> pydict list \<Rightarrow> entry \<Rightarrow> error + (pyval list \<times> pydict list)" where
  "select_step st e =
     (let messages = fst st; pending_calls = snd st in
      if kind e = ''message'' then Inr (append_message_entry messages e, pending_calls)
      else if kind e = ''tool_call'' then append_tool_call_entry messages e
      else if kind e = ''tool_result'' then
        (case append_tool_result_entry messages pending_calls e of
           Inl err \<Rightarrow> Inl err
         | Inr messages' \<Rightarrow> Inr (messages', []))
      else Inr (messages, pending_calls))"

fun select_loop :: "entry list \<Rightarrow> pyval list \<times> pydict list \<Rightarrow> error + (pyval list \<times> pydict list)" where
  "select_loop [] st = Inr st"
| "select_loop (e # es) st =
     (case select_step st e of Inl err \<Rightarrow> Inl err | Inr st' \<Rightarrow> select_loop es st')"

definition select_messages :: "entry list \<Rightarrow> error + pyval list" where
  "select_messages entries =
     (case select_loop entries ([], []) of Inl err \<Rightarrow> Inl err | Inr st \<Rightarrow> Inr (fst st))"

section \<open>Tape compiler: the specification's wording and sample tapes\<close>

text \<open>
  \<open>arguments_of\<close> reads \<^verbatim>\<open>function.arguments\<close> of a call item. \<open>arguments_ok\<close> is what
  sanitization establishes for a call item whose \<^verbatim>\<open>function\<close> is a mapping: the arguments
  are not a mapping and not \<^verbatim>\<open>None\<close>, and when they are a string the decoder accepts it.
  \<open>sanitizable\<close> holds of the stored arguments that sanitization has a branch for: a
  mapping, a string, or \<^verbatim>\<open>None\<close> (also an absent key). \<open>replaced_shape\<close> holds of those
  among them that it replaces: a mapping, \<^verbatim>\<open>None\<close>, or a string that the decoder
  rejects.
\<close>

definition arguments_of :: "pydict \<Rightarrow> pyval" where
  "arguments_of call =
     (case dict_get call ''function'' of PDict function \<Rightarrow> dict_get function ''arguments'' | _ \<Rightarrow> PNone)"

definition arguments_ok :: "pydict \<Rightarrow> bool" where
  "arguments_ok call =
     (case dict_get call ''function'' of
        PDict function \<Rightarrow>
          (case dict_get function ''arguments'' of
             PStr text \<Rightarrow> json_loads_ok text
           | PDict args \<Rightarrow> False
           | PNone \<Rightarrow> False
           | _ \<Rightarrow> True)
      | _ \<Rightarrow> True)"

definition sanitizable :: "pyval \<Rightarrow> bool" where
  "sanitizable a =
     (case a of PDict args \<Rightarrow> True | PNone \<Rightarrow> True | PStr text \<Rightarrow> True | _ \<Rightarrow> False)"

definition replaced_shape :: "pyval \<Rightarrow> bool" where
  "replaced_shape a =
     (case a of PDict args \<Rightarrow> True | PNone \<Rightarrow> True | PStr text \<Rightarrow> \<not> json_loads_ok text | _ \<Rightarrow> False)"





text \<open>
  Sample data: a call item of the tool \<^verbatim>\<open>search\<close> with the identifier \<^verbatim>\<open>1\<close> and given
  arguments, tape entries of the two tool kinds, and the assistant message for a list of
  calls.
\<close>

definition search_call :: "pyval \<Rightarrow> pydict" where
  "search_call a = [(''id'', PStr ''1''), (''function'', PDict [(''name'', PStr ''search''), (''arguments'', a)])]"

definition tool_call_entry :: "pyval list \<Rightarrow> entry" where
  "tool_call_entry calls = \<lparr> kind = ''tool_call'', payload = PDict [(''calls'', PList calls)] \<rparr>"

definition tool_result_entry :: "pyval \<Rightarrow> entry" where
  "tool_result_entry results = \<lparr> kind = ''tool_result'', payload = PDict [(''results'', results)] \<rparr>"

definition assistant_message :: "pydict list \<Rightarrow> pyval" where
  "assistant_message calls =
     PDict [(''role'', PStr ''assistant''), (''content'', PStr []), (''tool_calls'', PList (map PDict calls))]"

section \<open>Tape compiler: the objects it reads and writes\<close>

text \<open>
  The functions above give the value of what the compiler returns. Which objects it writes
  to is a matter of object identity: \<^verbatim>\<open>dict(item)\<close> is a shallow copy, so the copy and the
  item of the tape share the object stored under \<^verbatim>\<open>function\<close>. Here the dicts and lists are
  objects in a store, addressed by their index; a new object is appended. A value is
  immediate or a reference to an object.
\<close>

type_synonym addr = nat

datatype sval = SNone | SBool bool | SInt int | SStr string | SObj string | SRef addr

datatype sobj = ODict "(string \<times> sval) list" | OList "sval list"

type_synonym store = "sobj list"

definition alloc :: "store \<Rightarrow> sobj \<Rightarrow> addr \<times> store" where
  "alloc st obj = (length st, st @ [obj])"

definition deref :: "store \<Rightarrow> sval \<Rightarrow> sobj option" where
  "deref st v = (case v of SRef a \<Rightarrow> if a < length st then Some (st ! a) else None | _ \<Rightarrow> None)"

definition field :: "(string \<times> sval) list \<Rightarrow> string \<Rightarrow> sval" where
  "field d key = (case map_of d key of None \<Rightarrow> SNone | Some v \<Rightarrow> v)"

text \<open>
  The value reachable from a store value, read with a bound on the depth of references.
  With more than one level per object of the store the bound is only exhausted on a
  circular structure, on which \<^verbatim>\<open>json.dumps\<close> raises \<^verbatim>\<open>ValueError\<close>.
\<close>

fun read :: "nat \<Rightarrow> store \<Rightarrow> sval \<Rightarrow> pyval option"
  and read_items :: "nat \<Rightarrow> store \<Rightarrow> sval list \<Rightarrow> pyval list option"
  and read_pairs :: "nat \<Rightarrow> store \<Rightarrow> (string \<times> sval) list \<Rightarrow> (string \<times> pyval) list option" where
  "read n st SNone = Some PNone"
| "read n st (SBool b) = Some (PBool b)"
| "read n st (SInt i) = Some (PInt i)"
| "read n st (SStr s) = Some (PStr s)"
| "read n st (SObj r) = Some (PObj r)"
| "read 0 st (SRef a) = None"
| "read (Suc n) st (SRef a) =
     (if a < length st
      then (case st ! a of
              ODict kvs \<Rightarrow> map_option PDict (read_pairs n st kvs)
            | OList xs \<Rightarrow> map_option PList (read_items n st xs))
      else None)"
| "read_items n st [] = Some []"
| "read_items n st (x # xs) =
     (case read n st x of None \<Rightarrow> None
      | Some v \<Rightarrow> (case read_items n st xs of None \<Rightarrow> None | Some vs \<Rightarrow> Some (v # vs)))"
| "read_pairs n st [] = Some []"
| "read_pairs n st (kv # kvs) =
     (case read n st (snd kv) of None \<Rightarrow> None
      | Some v \<Rightarrow>
          (case read_pairs n st kvs of None \<Rightarrow> None | Some vs \<Rightarrow> Some ((fst kv, v) # vs)))"

definition read_value :: "store \<Rightarrow> sval \<Rightarrow> pyval option" where
  "read_value st v = read (Suc (length st)) st v"


definition json_dumps_st :: "store \<Rightarrow> sval \<Rightarrow> error + string" where
  "json_dumps_st st v =
     (case read_value st v of
        None \<Rightarrow> Inl (ValueError ''Circular reference detected'')
      | Some pv \<Rightarrow> (case json_dumps pv of None \<Rightarrow> Inl TypeError | Some js \<Rightarrow> Inr js))"

text \<open>\<^verbatim>\<open>obj[key] = v\<close> on the dict at address \<open>a\<close>: the object is updated in place.\<close>

definition store_field :: "store \<Rightarrow> addr \<Rightarrow> string \<Rightarrow> sval \<Rightarrow> store" where
  "store_field st a key v =
     (case st ! a of
        ODict d \<Rightarrow> st[a := ODict (AList.update key v d)]
      | OList xs \<Rightarrow> st)"

text \<open>
  The compiler's functions on the store, in the order of the source. Each returns the
  store after its writes; \<^verbatim>\<open>_sanitize_tool_call\<close> returns the call it was given, so the
  store is its whole result.
\<close>

record entry_st =
  kind_st :: string
  payload_st :: sval

definition sanitize_tool_call_st :: "store \<Rightarrow> sval \<Rightarrow> error + store" where
  "sanitize_tool_call_st st call =
     (case deref st call of
        Some (ODict c) \<Rightarrow>
          (case field c ''function'' of
             SRef f \<Rightarrow>
               (case deref st (SRef f) of
                  Some (ODict function) \<Rightarrow>
                    (case field function ''arguments'' of
                       SRef a \<Rightarrow>
                         (case deref st (SRef a) of
                            Some (ODict args) \<Rightarrow>
                              (case json_dumps_st st (SRef a) of
                                 Inl err \<Rightarrow> Inl err
                               | Inr js \<Rightarrow> Inr (store_field st f ''arguments'' (SStr js)))
                          | _ \<Rightarrow> Inr st)
                     | SStr args \<Rightarrow>
                         if json_loads_ok args then Inr st
                         else Inr (store_field st f ''arguments'' (SStr ''{}''))
                     | SNone \<Rightarrow> Inr (store_field st f ''arguments'' (SStr ''{}''))
                     | _ \<Rightarrow> Inr st)
                | _ \<Rightarrow> Inr st)
           | _ \<Rightarrow> Inr st)
      | _ \<Rightarrow> Inr st)"

fun normalize_loop_st :: "store \<Rightarrow> sval list \<Rightarrow> sval list \<Rightarrow> error + (sval list \<times> store)" where
  "normalize_loop_st st [] calls = Inr (calls, st)"
| "normalize_loop_st st (item # items) calls =
     (case deref st item of
        Some (ODict d) \<Rightarrow>
          (let copy = alloc st (ODict d) in
           case sanitize_tool_call_st (snd copy) (SRef (fst copy)) of
             Inl err \<Rightarrow> Inl err
           | Inr st' \<Rightarrow> normalize_loop_st st' items (calls @ [SRef (fst copy)]))
      | _ \<Rightarrow> normalize_loop_st st items calls)"

definition normalize_tool_calls_st :: "store \<Rightarrow> sval \<Rightarrow> error + (sval list \<times> store)" where
  "normalize_tool_calls_st st v =
     (case deref st v of
        Some (OList items) \<Rightarrow> normalize_loop_st st items []
      | _ \<Rightarrow> Inr ([], st))"

definition payload_get_st :: "store \<Rightarrow> sval \<Rightarrow> string \<Rightarrow> error + sval" where
  "payload_get_st st p key =
     (case deref st p of Some (ODict d) \<Rightarrow> Inr (field d key) | _ \<Rightarrow> Inl AttributeError)"

definition append_message_entry_st :: "store \<Rightarrow> sval list \<Rightarrow> entry_st \<Rightarrow> sval list \<times> store" where
  "append_message_entry_st st messages e =
     (case deref st (payload_st e) of
        Some (ODict d) \<Rightarrow> (let copy = alloc st (ODict d) in (messages @ [SRef (fst copy)], snd copy))
      | _ \<Rightarrow> (messages, st))"

definition append_tool_call_entry_st ::
  "store \<Rightarrow> sval list \<Rightarrow> entry_st \<Rightarrow> error + (sval list \<times> sval list \<times> store)" where
  "append_tool_call_entry_st st messages e =
     (case payload_get_st st (payload_st e) ''calls'' of
        Inl err \<Rightarrow> Inl err
      | Inr v \<Rightarrow>
          (case normalize_tool_calls_st st v of
             Inl err \<Rightarrow> Inl err
           | Inr (calls, st1) \<Rightarrow>
               if calls \<noteq> [] then
                 (let l = alloc st1 (OList calls);
                      m = alloc (snd l)
                            (ODict [(''role'', SStr ''assistant''), (''content'', SStr []),
                                    (''tool_calls'', SRef (fst l))])
                  in Inr (messages @ [SRef (fst m)], calls, snd m))
               else Inr (messages, calls, st1)))"

definition render_tool_result_st :: "store \<Rightarrow> sval \<Rightarrow> error + string" where
  "render_tool_result_st st result =
     (case result of
        SStr s \<Rightarrow> Inr s
      | _ \<Rightarrow>
          (case read_value st result of
             None \<Rightarrow> Inl (ValueError ''Circular reference detected'')
           | Some pv \<Rightarrow> Inr (case json_dumps pv of Some js \<Rightarrow> js | None \<Rightarrow> py_repr pv)))"

definition build_tool_result_message_st ::
  "store \<Rightarrow> sval \<Rightarrow> sval list \<Rightarrow> nat \<Rightarrow> error + (string \<times> sval) list" where
  "build_tool_result_message_st st result pending_calls index =
     (case render_tool_result_st st result of
        Inl err \<Rightarrow> Inl err
      | Inr content \<Rightarrow>
          (let message = [(''role'', SStr ''tool''), (''content'', SStr content)] in
           if index \<ge> length pending_calls then Inr message
           else
             (case deref st (pending_calls ! index) of
                Some (ODict call) \<Rightarrow>
                  (let message1 =
                         (case field call ''id'' of
                            SStr call_id \<Rightarrow>
                              if call_id \<noteq> [] then AList.update ''tool_call_id'' (SStr call_id) message
                              else message
                          | _ \<Rightarrow> message)
                   in case deref st (field call ''function'') of
                        Some (ODict function) \<Rightarrow>
                          (case field function ''name'' of
                             SStr nm \<Rightarrow>
                               if nm \<noteq> [] then Inr (AList.update ''name'' (SStr nm) message1)
                               else Inr message1
                           | _ \<Rightarrow> Inr message1)
                      | _ \<Rightarrow> Inr message1)
              | _ \<Rightarrow> Inl AttributeError)))"

fun result_loop_st ::
  "store \<Rightarrow> sval list \<Rightarrow> sval list \<Rightarrow> nat \<Rightarrow> sval list \<Rightarrow> error + (sval list \<times> store)" where
  "result_loop_st st messages pending_calls index [] = Inr (messages, st)"
| "result_loop_st st messages pending_calls index (result # results) =
     (case build_tool_result_message_st st result pending_calls index of
        Inl err \<Rightarrow> Inl err
      | Inr message \<Rightarrow>
          (let m = alloc st (ODict message)
           in result_loop_st (snd m) (messages @ [SRef (fst m)]) pending_calls (Suc index) results))"

definition append_tool_result_entry_st ::
  "store \<Rightarrow> sval list \<Rightarrow> sval list \<Rightarrow> entry_st \<Rightarrow> error + (sval list \<times> store)" where
  "append_tool_result_entry_st st messages pending_calls e =
     (case payload_get_st st (payload_st e) ''results'' of
        Inl err \<Rightarrow> Inl err
      | Inr v \<Rightarrow>
          (case deref st v of
             Some (OList results) \<Rightarrow> result_loop_st st messages pending_calls 0 results
           | _ \<Rightarrow> Inr (messages, st)))"

fun select_loop_st ::
  "entry_st list \<Rightarrow> sval list \<Rightarrow> sval list \<Rightarrow> store \<Rightarrow> error + (sval list \<times> store)" where
  "select_loop_st [] messages pending_calls st = Inr (messages, st)"
| "select_loop_st (e # es) messages pending_calls st =
     (if kind_st e = ''message'' then
        (let r = append_message_entry_st st messages e in select_loop_st es (fst r) pending_calls (snd r))
      else if kind_st e = ''tool_call'' then
        (case append_tool_call_entry_st st messages e of
           Inl err \<Rightarrow> Inl err
         | Inr (messages', calls, st') \<Rightarrow> select_loop_st es messages' calls st')
      else if kind_st e = ''tool_result'' then
        (case append_tool_result_entry_st st messages pending_calls e of
           Inl err \<Rightarrow> Inl err
         | Inr (messages', st') \<Rightarrow> select_loop_st es messages' [] st')
      else select_loop_st es messages pending_calls st)"

definition select_messages_st :: "store \<Rightarrow> entry_st list \<Rightarrow> error + (sval list \<times> store)" where
  "select_messages_st st entries = select_loop_st entries [] [] st"

text \<open>
  The tape of the specification's example as objects: the arguments \<^verbatim>\<open>{"q": "x"}\<close> at
  address 0, the function dict at 1, the call item at 2, the list of calls at 3, the
  payload of the \<^verbatim>\<open>tool_call\<close> entry at 4, the results at 5 and the payload of the
  \<^verbatim>\<open>tool_result\<close> entry at 6; and the store after compiling it.
\<close>

definition tape_store :: store where
  "tape_store =
     [ODict [(''q'', SStr ''x'')],
      ODict [(''name'', SStr ''search''), (''arguments'', SRef 0)],
      ODict [(''id'', SStr ''1''), (''function'', SRef 1)],
      OList [SRef 2],
      ODict [(''calls'', SRef 3)],
      OList [SStr ''ok''],
      ODict [(''results'', SRef 5)]]"

definition tape_entries :: "entry_st list" where
  "tape_entries =
     [\<lparr> kind_st = ''tool_call'', payload_st = SRef 4 \<rparr>,
      \<lparr> kind_st = ''tool_result'', payload_st = SRef 6 \<rparr>]"

definition arguments_text :: string where
  "arguments_text = ''{'' @ [CHR 0x22] @ ''q'' @ [CHR 0x22] @ '': '' @ [CHR 0x22] @ ''x'' @ [CHR 0x22] @ ''}''"

definition tape_store_after :: store where
  "tape_store_after =
     [ODict [(''q'', SStr ''x'')],
      ODict [(''name'', SStr ''search''), (''arguments'', SStr arguments_text)],
      ODict [(''id'', SStr ''1''), (''function'', SRef 1)],
      OList [SRef 2],
      ODict [(''calls'', SRef 3)],
      OList [SStr ''ok''],
      ODict [(''results'', SRef 5)],
      ODict [(''id'', SStr ''1''), (''function'', SRef 1)],
      OList [SRef 7],
      ODict [(''role'', SStr ''assistant''), (''content'', SStr []), (''tool_calls'', SRef 8)],
      ODict [(''role'', SStr ''tool''), (''content'', SStr ''ok''), (''tool_call_id'', SStr ''1''),
             (''name'', SStr ''search'')]]"

section \<open>Tool registry: model names\<close>

text \<open>
  \<^verbatim>\<open>ToolRegistry.to_model_name\<close> (tools/registry.py) is \<^verbatim>\<open>name.replace(".", "_")\<close>:
  every occurrence of the one-character string \<^verbatim>\<open>.\<close> is replaced by \<^verbatim>\<open>_\<close>, all other
  characters are kept in place. A Python \<^verbatim>\<open>str\<close> is modelled as a \<open>string\<close>; the
  characters concerned are ASCII, so the byte view and the code point view agree.
\<close>

definition to_model_name :: "string \<Rightarrow> string" where
  "to_model_name name = map (\<lambda>c. if c = CHR ''.'' then CHR ''_'' else c) name"

section \<open>Tool registry: the instrumented handler\<close>

text \<open>
  \<^verbatim>\<open>_shorten_text(text, width, placeholder)\<close>: a text longer than \<open>width\<close> is cut so that,
  with the placeholder appended, it is \<open>width\<close> characters long.
\<close>

definition shorten_text :: "string \<Rightarrow> nat \<Rightarrow> string \<Rightarrow> string" where
  "shorten_text text width placeholder =
     (if length text \<le> width then text
      else if int width - int (length placeholder) \<le> 0 then placeholder
      else take (width - length placeholder) text @ placeholder)"

text \<open>
  The wrapped function of a tool: its docstring and its body. The body receives the
  positional and the keyword arguments and returns a value or raises. A positional
  argument is a pydantic model instance (\<open>Model d\<close>, where \<open>d\<close> is what
  \<^verbatim>\<open>model_dump()\<close> returns) or any other value.
\<close>

datatype arg = Model pydict | Plain pyval

record func =
  doc :: "string option"
  body :: "arg list \<Rightarrow> pydict \<Rightarrow> error + pyval"

text \<open>
  The lines written to the logger. The duration printed by \<^verbatim>\<open>tool.call.end\<close> is a
  difference of two clock readings and is not part of the event.
\<close>

datatype log_event =
    CallStart string string
  | CallError string
  | CallEnd string

text \<open>
  \<^verbatim>\<open>_log_tool_call(name, kwargs, context)\<close>: each keyword argument is rendered with
  \<^verbatim>\<open>json.dumps\<close> (with \<^verbatim>\<open>repr\<close> when that raises \<^verbatim>\<open>TypeError\<close>), shortened to 60
  characters and closed with the quote or bracket it starts with. The \<open>context\<close>
  parameter is not used by the body.
\<close>

definition startswith :: "string \<Rightarrow> char \<Rightarrow> bool" where
  "startswith s c = (case s of [] \<Rightarrow> False | x # _ \<Rightarrow> x = c)"

definition endswith :: "string \<Rightarrow> char \<Rightarrow> bool" where
  "endswith s c = (case rev s of [] \<Rightarrow> False | x # _ \<Rightarrow> x = c)"

definition render_param :: "string \<times> pyval \<Rightarrow> string" where
  "render_param kv =
     (let rendered = (case json_dumps (snd kv) of Some s \<Rightarrow> s | None \<Rightarrow> py_repr (snd kv));
          v0 = shorten_text rendered 60 ''...'';
          v1 = (if startswith v0 (CHR 0x22) \<and> \<not> endswith v0 (CHR 0x22) then v0 @ [CHR 0x22] else v0);
          v2 = (if startswith v1 CHR ''{'' \<and> \<not> endswith v1 CHR ''}'' then v1 @ ''}'' else v1);
          v3 = (if startswith v2 CHR ''['' \<and> \<not> endswith v2 CHR '']'' then v2 @ '']'' else v2)
      in fst kv @ ''='' @ v3)"

definition log_tool_call :: "string \<Rightarrow> pydict \<Rightarrow> pyval \<Rightarrow> log_event" where
  "log_tool_call name kwargs context = CallStart name (join '', '' (map render_param kwargs))"

text \<open>
  The \<^verbatim>\<open>handler\<close> closure built by \<^verbatim>\<open>register\<close>, for a tool registered under \<open>name\<close> with
  the flag \<open>context\<close> around the function \<open>f\<close>. It returns the log lines it writes and
  the outcome of the call. A result that is awaitable is awaited; the model takes the
  body's outcome as the awaited one.
\<close>

definition call_kwargs_of :: "arg list \<Rightarrow> pydict \<Rightarrow> pydict" where
  "call_kwargs_of args kwargs =
     (let call_kwargs = filter (\<lambda>kv. fst kv \<noteq> ''context'') kwargs
      in case args of
           Model dumped # _ \<Rightarrow> dict_update call_kwargs dumped
         | _ \<Rightarrow> call_kwargs)"

definition handler :: "string \<Rightarrow> bool \<Rightarrow> func \<Rightarrow> arg list \<Rightarrow> pydict \<Rightarrow> log_event list \<times> (error + pyval)" where
  "handler name context f args kwargs =
     (let context_arg = (if context then dict_get kwargs ''context'' else PNone);
          call_kwargs = call_kwargs_of args kwargs;
          start = log_tool_call name call_kwargs context_arg
      in case body f args kwargs of
           Inl e \<Rightarrow> ([start, CallError name, CallEnd name], Inl e)
         | Inr result \<Rightarrow> ([start, CallEnd name], Inr result))"

section \<open>Tool registry: state and operations\<close>

text \<open>
  \<^verbatim>\<open>Tool\<close> is a class of the \<^verbatim>\<open>republic\<close> library: a name, a description, a parameter
  schema, a handler and the context flag. A callable takes positional and keyword
  arguments and returns the log lines written and the outcome.
\<close>

type_synonym callable = "arg list \<Rightarrow> pydict \<Rightarrow> log_event list \<times> (error + pyval)"

record tool =
  tool_name :: string
  description :: string
  parameters :: pyval
  tool_handler :: callable
  tool_context :: bool

text \<open>
  The registry builds a tool with \<^verbatim>\<open>Tool.from_callable(handler, name=..., description=...,
  context=...)\<close> or, when a parameter model is given, with \<^verbatim>\<open>tool_from_model(model,
  handler, name=..., description=..., context=...)\<close>, and runs it with
  \<^verbatim>\<open>tool.run(**kwargs)\<close>. The three are operations of the library, whose code is not part
  of this repository: which schema it derives, how it validates and converts the keyword
  arguments, and how it calls the handler it was given (with a model instance as
  positional argument for a parameter model) is the library's matter. They are
  parameters of the model, and nothing is assumed about them. \<open>'m\<close> is the type of
  parameter models.
\<close>

record 'm library =
  from_callable :: "callable \<Rightarrow> string \<Rightarrow> string \<Rightarrow> bool \<Rightarrow> tool"
  tool_from_model :: "'m \<Rightarrow> callable \<Rightarrow> string \<Rightarrow> string \<Rightarrow> bool \<Rightarrow> tool"
  tool_run :: "tool \<Rightarrow> pydict \<Rightarrow> log_event list \<times> (error + pyval)"

record descriptor =
  name :: string
  short_description :: string
  detail :: string
  tool_of :: tool
  source :: string

text \<open>
  \<^verbatim>\<open>ToolRegistry\<close>: the dict \<^verbatim>\<open>_tools\<close> and the optional set \<^verbatim>\<open>_allowed_tools\<close>.
\<close>

record registry =
  tools :: "(string \<times> descriptor) list"
  allowed_tools :: "string set option"

definition init :: "string set option \<Rightarrow> registry" where
  "init allowed = \<lparr> tools = [], allowed_tools = allowed \<rparr>"

text \<open>
  \<^verbatim>\<open>str.casefold\<close> on ASCII text: the letters \<^verbatim>\<open>A\<close> to \<^verbatim>\<open>Z\<close> become \<^verbatim>\<open>a\<close> to \<^verbatim>\<open>z\<close>.
  Tool names are ASCII identifiers; the foldings of other scripts are not modelled.
\<close>

definition casefold_char :: "char \<Rightarrow> char" where
  "casefold_char c =
     (case map_of (zip ''ABCDEFGHIJKLMNOPQRSTUVWXYZ'' ''abcdefghijklmnopqrstuvwxyz'') c of
        Some l \<Rightarrow> l
      | None \<Rightarrow> c)"

definition casefold :: "string \<Rightarrow> string" where
  "casefold s = map casefold_char s"

text \<open>
  \<^verbatim>\<open>register(name=..., short_description=..., detail=..., model=..., context=...,
  source=...)(func)\<close>: the decorator applied to \<open>f\<close>, with the library \<open>lib\<close>. The
  result is the descriptor, or \<open>None\<close> when the registration is skipped, with the
  registry after the call.
\<close>

definition allowed :: "registry \<Rightarrow> string \<Rightarrow> bool" where
  "allowed reg nm =
     (case allowed_tools reg of
        None \<Rightarrow> True
      | Some A \<Rightarrow> casefold nm \<in> A \<or> casefold (to_model_name nm) \<in> A)"

definition register ::
  "'m library \<Rightarrow> registry \<Rightarrow> string \<Rightarrow> string \<Rightarrow> string option \<Rightarrow> 'm option \<Rightarrow> bool \<Rightarrow> string
     \<Rightarrow> func \<Rightarrow> descriptor option \<times> registry" where
  "register lib reg nm short det model context src f =
     (let tool_detail =
            (case det of
               Some d \<Rightarrow> if d \<noteq> [] then d else (case doc f of Some d' \<Rightarrow> d' | None \<Rightarrow> [])
             | None \<Rightarrow> (case doc f of Some d' \<Rightarrow> d' | None \<Rightarrow> []))
      in if \<not> allowed reg nm then (None, reg)
         else
           let t = (case model of
                      Some m \<Rightarrow> tool_from_model lib m (handler nm context f) nm short context
                    | None \<Rightarrow> from_callable lib (handler nm context f) nm short context);
               tool_desc = \<lparr> name = nm, short_description = short, detail = tool_detail,
                             tool_of = t, source = src \<rparr>
           in (Some tool_desc, reg\<lparr> tools := AList.update nm tool_desc (tools reg) \<rparr>))"

definition has :: "registry \<Rightarrow> string \<Rightarrow> bool" where
  "has reg nm = (nm \<in> fst ` set (tools reg))"

definition get :: "registry \<Rightarrow> string \<Rightarrow> descriptor option" where
  "get reg nm = map_of (tools reg) nm"

text \<open>\<^verbatim>\<open>descriptors()\<close>: the stored descriptors, stably sorted by their name.\<close>

definition descriptors :: "registry \<Rightarrow> descriptor list" where
  "descriptors reg = sort_key name (map snd (tools reg))"

text \<open>
  \<^verbatim>\<open>model_tools()\<close>: the loop over the sorted descriptors, with the list built so far
  and the set of model names seen so far. The \<^verbatim>\<open>ValueError\<close> leaves the loop.
\<close>

fun model_tools_loop :: "descriptor list \<Rightarrow> tool list \<Rightarrow> string set \<Rightarrow> error + tool list" where
  "model_tools_loop [] acc seen_names = Inr acc"
| "model_tools_loop (d # ds) acc seen_names =
     (let model_name = to_model_name (name d) in
      if model_name \<in> seen_names
      then Inl (ValueError (''Duplicate model tool name after conversion: '' @ model_name))
      else model_tools_loop ds
             (acc @ [\<lparr> tool_name = model_name, description = description (tool_of d),
                       parameters = parameters (tool_of d),
                       tool_handler = tool_handler (tool_of d),
                       tool_context = tool_context (tool_of d) \<rparr>])
             (insert model_name seen_names))"

definition model_tools :: "registry \<Rightarrow> error + tool list" where
  "model_tools reg = model_tools_loop (descriptors reg) [] {}"

text \<open>
  \<^verbatim>\<open>execute(name, kwargs=..., context=...)\<close>. The caller's \<^verbatim>\<open>kwargs\<close> dict is an object
  that \<^verbatim>\<open>execute\<close> writes to, so its content after the call is part of the result:
  the outcome, the caller's dict afterwards, and the log lines written. \<^verbatim>\<open>**kwargs\<close>
  passes the items to the library's \<^verbatim>\<open>run\<close> in a dict of its own.
\<close>

definition execute ::
  "'m library \<Rightarrow> registry \<Rightarrow> string \<Rightarrow> pydict \<Rightarrow> pyval
     \<Rightarrow> (error + pyval) \<times> pydict \<times> log_event list" where
  "execute lib reg nm kwargs context =
     (case get reg nm of
        None \<Rightarrow> (Inl (KeyError nm), kwargs, [])
      | Some d \<Rightarrow>
          let kwargs' = (if tool_context (tool_of d) then dict_set kwargs ''context'' context
                         else kwargs);
              r = tool_run lib (tool_of d) kwargs'
          in (snd r, kwargs', fst r))"

section \<open>Tool registry: the specification's wording and sample registries\<close>


text \<open>Every descriptor is stored under its own name: what \<open>register\<close> maintains.\<close>

definition keyed_by_name :: "registry \<Rightarrow> bool" where
  "keyed_by_name reg = list_all (\<lambda>kd. name (snd kd) = fst kd) (tools reg)"

text \<open>
  A library instance for the sample registries. It stores the callable as the tool's
  handler (for a parameter model, named by a string here, behind a wrapper that passes
  the keyword arguments other than \<^verbatim>\<open>context\<close> as one model instance) and runs a tool by
  calling its handler with the keyword arguments. It stands in for the library in the
  examples only: the statements about registries hold for every library.
\<close>

definition sample_library :: "string library" where
  "sample_library =
     \<lparr> from_callable = (\<lambda>h nm d c.
         \<lparr> tool_name = nm, description = d, parameters = PNone, tool_handler = h,
           tool_context = c \<rparr>),
       tool_from_model = (\<lambda>m h nm d c.
         \<lparr> tool_name = nm, description = d, parameters = PStr m,
           tool_handler = (\<lambda>args kwargs.
             h [Model (filter (\<lambda>kv. fst kv \<noteq> ''context'') kwargs)]
               (filter (\<lambda>kv. fst kv = ''context'') kwargs)),
           tool_context = c \<rparr>),
       tool_run = (\<lambda>t kwargs. tool_handler t [] kwargs) \<rparr>"

text \<open>
  Two tool functions for the examples: \<open>noop\<close> returns \<^verbatim>\<open>None\<close>; \<open>probe\<close> returns
  whether it was called with a keyword argument named \<^verbatim>\<open>context\<close>.
\<close>

definition noop :: func where
  "noop = \<lparr> doc = None, body = (\<lambda>args kwargs. Inr PNone) \<rparr>"

definition probe :: func where
  "probe = \<lparr> doc = None, body = (\<lambda>args kwargs. Inr (PBool (''context'' \<in> fst ` set kwargs))) \<rparr>"


definition reg_ab :: "'m library \<Rightarrow> registry" where
  "reg_ab lib =
     snd (register lib
            (snd (register lib (init None) ''a.b'' ''first'' None None False ''builtin'' noop))
            ''a_b'' ''second'' None None False ''builtin'' noop)"

definition probe_desc :: "bool \<Rightarrow> descriptor" where
  "probe_desc context =
     \<lparr> name = ''fs.read'', short_description = ''read'', detail = [],
       tool_of = \<lparr> tool_name = ''fs.read'', description = ''read'', parameters = PNone,
                   tool_handler = handler ''fs.read'' context probe, tool_context = context \<rparr>,
       source = ''builtin'' \<rparr>"

definition reg_probe :: "bool \<Rightarrow> registry" where
  "reg_probe context =
     snd (register sample_library (init None) ''fs.read'' ''read'' None None context ''builtin''
            probe)"

section \<open>Properties of the model name mapping\<close>

text \<open>
  Claim C9. \<open>to_model_name\<close> is a total, deterministic function (it is a HOL function,
  defined by one equation on every string) that replaces every \<^verbatim>\<open>.\<close> with \<^verbatim>\<open>_\<close>:
  the result has the length of the input, holds \<^verbatim>\<open>_\<close> at each position where the input
  holds \<^verbatim>\<open>.\<close> and the input's character everywhere else, so no \<^verbatim>\<open>.\<close> is left. It is
  idempotent: applying it twice gives the same string as applying it once.
\<close>

theorem to_model_name_idempotent:
  "to_model_name (to_model_name x) = to_model_name x
   \<and> length (to_model_name x) = length x
   \<and> list_all2 (\<lambda>a b. b = (if a = CHR ''.'' then CHR ''_'' else a)) x (to_model_name x)
   \<and> CHR ''.'' \<notin> set (to_model_name x)"
  by (auto simp: to_model_name_def list_all2_conv_all_nth)


section \<open>Properties of the registry\<close>









lemma keyed_by_name_init: "keyed_by_name (init allowed_set)"
  by (simp add: keyed_by_name_def init_def)

lemma update_list_all:
  "list_all (\<lambda>kd. name (snd kd) = fst kd) al \<Longrightarrow> name d = k
   \<Longrightarrow> list_all (\<lambda>kd. name (snd kd) = fst kd) (AList.update k d al)"
  by (induction al) auto

lemma keyed_by_name_register:
  "keyed_by_name reg \<Longrightarrow> keyed_by_name (snd (register lib reg nm short det mdl cx src f))"
  by (auto simp: keyed_by_name_def register_def Let_def intro!: update_list_all)

lemma model_tools_loop_seen:
  "\<exists>d\<in>set ds. to_model_name (name d) \<in> seen
   \<Longrightarrow> \<exists>m. model_tools_loop ds acc seen = Inl (ValueError m)"
proof (induction ds arbitrary: acc seen)
  case Nil
  then show ?case by simp
next
  case (Cons d ds)
  show ?case
  proof (cases "to_model_name (name d) \<in> seen")
    case True
    then show ?thesis by (simp add: Let_def)
  next
    case False
    with Cons.prems
    have "\<exists>e\<in>set ds. to_model_name (name e) \<in> insert (to_model_name (name d)) seen"
      by auto
    from Cons.IH[OF this] False show ?thesis by (simp add: Let_def)
  qed
qed

lemma model_tools_loop_dup:
  "\<not> distinct (map (\<lambda>d. to_model_name (name d)) ds)
   \<Longrightarrow> \<exists>m. model_tools_loop ds acc seen = Inl (ValueError m)"
proof (induction ds arbitrary: acc seen)
  case Nil
  then show ?case by simp
next
  case (Cons d ds)
  show ?case
  proof (cases "to_model_name (name d) \<in> seen")
    case True
    then show ?thesis by (simp add: Let_def)
  next
    case False
    show ?thesis
    proof (cases "to_model_name (name d) \<in> (\<lambda>d. to_model_name (name d)) ` set ds")
      case True
      then have "\<exists>e\<in>set ds. to_model_name (name e) \<in> insert (to_model_name (name d)) seen"
        by auto
      from model_tools_loop_seen[OF this] False show ?thesis by (simp add: Let_def)
    next
      case unseen: False
      with Cons.prems have "\<not> distinct (map (\<lambda>d. to_model_name (name d)) ds)" by simp
      from Cons.IH[OF this] False show ?thesis by (simp add: Let_def)
    qed
  qed
qed

lemma colliding_names_not_distinct:
  assumes "d1 \<in> set ds" "d2 \<in> set ds" "name d1 \<noteq> name d2"
    "to_model_name (name d1) = to_model_name (name d2)"
  shows "\<not> distinct (map (\<lambda>d. to_model_name (name d)) ds)"
proof
  assume "distinct (map (\<lambda>d. to_model_name (name d)) ds)"
  then have "inj_on (\<lambda>d. to_model_name (name d)) (set ds)" by (simp add: distinct_map)
  with assms show False by (auto dest: inj_onD)
qed

lemma model_tools_collision_names:
  assumes "da \<in> snd ` set (tools reg)" "db \<in> snd ` set (tools reg)"
    "name da \<noteq> name db" "to_model_name (name da) = to_model_name (name db)"
  shows "\<exists>m. model_tools reg = Inl (ValueError m)"
proof -
  have "da \<in> set (descriptors reg)" "db \<in> set (descriptors reg)"
    using assms(1,2) by (simp_all add: descriptors_def)
  from colliding_names_not_distinct[OF this assms(3,4)] show ?thesis
    unfolding model_tools_def by (rule model_tools_loop_dup)
qed

lemma reg_ab_result:
  "model_tools (reg_ab lib) = Inl (ValueError ''Duplicate model tool name after conversion: a_b'')"
  by (simp add: model_tools_def descriptors_def reg_ab_def register_def allowed_def init_def
      Let_def to_model_name_def)

text \<open>
  Claim C7. In a registry that stores every descriptor under its own name (what
  \<open>register\<close> maintains), whenever two distinct stored names have the same model name,
  \<open>model_tools\<close> ends in the \<^verbatim>\<open>ValueError\<close> and returns no tool list. In particular,
  after registering \<^verbatim>\<open>a.b\<close> and \<^verbatim>\<open>a_b\<close> the error names the model name \<^verbatim>\<open>a_b\<close>.
\<close>

theorem model_tools_collision:
  "(keyed_by_name reg \<and> a \<in> fst ` set (tools reg) \<and> b \<in> fst ` set (tools reg) \<and> a \<noteq> b
      \<and> to_model_name a = to_model_name b
     \<longrightarrow> (\<exists>m. model_tools reg = Inl (ValueError m)))
   \<and> model_tools (reg_ab lib)
       = Inl (ValueError ''Duplicate model tool name after conversion: a_b'')"
proof -
  have "\<exists>m. model_tools reg = Inl (ValueError m)"
    if k: "keyed_by_name reg" and a: "a \<in> fst ` set (tools reg)" and b: "b \<in> fst ` set (tools reg)"
      and ne: "a \<noteq> b" and eq: "to_model_name a = to_model_name b"
  proof -
    from a obtain da where da: "(a, da) \<in> set (tools reg)" by auto
    from b obtain db where db: "(b, db) \<in> set (tools reg)" by auto
    from k da have na: "name da = a" by (auto simp: keyed_by_name_def list_all_iff)
    from k db have nb: "name db = b" by (auto simp: keyed_by_name_def list_all_iff)
    have "da \<in> snd ` set (tools reg)" "db \<in> snd ` set (tools reg)"
      using da db by force+
    then show ?thesis
      using ne eq na nb by (intro model_tools_collision_names[of da reg db]) simp_all
  qed
  then show ?thesis using reg_ab_result by blast
qed

theorem model_tools_collision_witness:
  "keyed_by_name (reg_ab sample_library)
   \<and> ''a.b'' \<in> fst ` set (tools (reg_ab sample_library))
   \<and> ''a_b'' \<in> fst ` set (tools (reg_ab sample_library))
   \<and> ''a.b'' \<noteq> ''a_b'' \<and> to_model_name ''a.b'' = to_model_name ''a_b''
   \<and> (\<exists>m. model_tools (reg_ab sample_library) = Inl (ValueError m))"
proof -
  have h: "keyed_by_name (reg_ab sample_library)
      \<and> ''a.b'' \<in> fst ` set (tools (reg_ab sample_library))
      \<and> ''a_b'' \<in> fst ` set (tools (reg_ab sample_library))
      \<and> ''a.b'' \<noteq> ''a_b'' \<and> to_model_name ''a.b'' = to_model_name ''a_b''"
    by (simp add: keyed_by_name_def reg_ab_def register_def allowed_def init_def Let_def
        to_model_name_def)
  with model_tools_collision [of "reg_ab sample_library" "''a.b''" "''a_b''" sample_library]
  show ?thesis by blast
qed

lemma reg_probe_get: "get (reg_probe cx) ''fs.read'' = Some (probe_desc cx)"
  by (simp add: reg_probe_def register_def allowed_def init_def Let_def get_def probe_desc_def
      probe_def sample_library_def)

lemma dict_set_lookup: "map_of (dict_set kwargs k v) k' = (if k' = k then Some v else map_of kwargs k')"
  by (simp add: dict_set_def update_conv')

text \<open>
  Claim C10. For a registered tool whose descriptor requires context, the caller's
  keyword dict after \<open>execute\<close> is the dict it passed with the key \<^verbatim>\<open>context\<close> set to
  the supplied context value (every other key as before); for a tool that does not
  require context the caller's dict is as it was passed.
\<close>

theorem execute_injects_context:
  assumes "get reg nm = Some d"
  shows "(tool_context (tool_of d) \<longrightarrow>
            fst (snd (execute lib reg nm kwargs ctx)) = dict_set kwargs ''context'' ctx
            \<and> map_of (fst (snd (execute lib reg nm kwargs ctx))) ''context'' = Some ctx
            \<and> (\<forall>k. k \<noteq> ''context'' \<longrightarrow>
                  map_of (fst (snd (execute lib reg nm kwargs ctx))) k = map_of kwargs k))
       \<and> (\<not> tool_context (tool_of d) \<longrightarrow> fst (snd (execute lib reg nm kwargs ctx)) = kwargs)"
  using assms by (simp add: execute_def Let_def dict_set_lookup)

theorem execute_injects_context_witness:
  "get (reg_probe True) ''fs.read'' = Some (probe_desc True)
   \<and> tool_context (tool_of (probe_desc True))
   \<and> fst (snd (execute sample_library (reg_probe True) ''fs.read'' [(''path'', PStr ''a'')] (PObj ''ctx'')))
       = [(''path'', PStr ''a''), (''context'', PObj ''ctx'')]
   \<and> get (reg_probe False) ''fs.read'' = Some (probe_desc False)
   \<and> \<not> tool_context (tool_of (probe_desc False))
   \<and> fst (snd (execute sample_library (reg_probe False) ''fs.read'' [(''path'', PStr ''a'')] (PObj ''ctx'')))
       = [(''path'', PStr ''a'')]"
proof -
  have t: "tool_context (tool_of (probe_desc True))" and f: "\<not> tool_context (tool_of (probe_desc False))"
    by (simp_all add: probe_desc_def)
  from execute_injects_context [OF reg_probe_get [of True],
      where lib = sample_library and kwargs = "[(''path'', PStr ''a'')]" and ctx = "PObj ''ctx''"] t
  have a: "fst (snd (execute sample_library (reg_probe True) ''fs.read'' [(''path'', PStr ''a'')] (PObj ''ctx'')))
       = [(''path'', PStr ''a''), (''context'', PObj ''ctx'')]"
    by (simp add: dict_set_def)
  from execute_injects_context [OF reg_probe_get [of False],
      where lib = sample_library and kwargs = "[(''path'', PStr ''a'')]" and ctx = "PObj ''ctx''"] f
  have b: "fst (snd (execute sample_library (reg_probe False) ''fs.read'' [(''path'', PStr ''a'')] (PObj ''ctx'')))
       = [(''path'', PStr ''a'')]"
    by simp
  from a b t f reg_probe_get show ?thesis by simp
qed

lemma dict_update_keys: "fst ` set (dict_update d other) = fst ` set d \<union> fst ` set other"
proof -
  have "fst ` set (foldl (\<lambda>acc (k, v). dict_set acc k v) d other) = fst ` set d \<union> fst ` set other"
  proof (induction other arbitrary: d)
    case Nil
    then show ?case by simp
  next
    case (Cons kv other)
    have "fst ` set (dict_set d (fst kv) (snd kv)) = insert (fst kv) (fst ` set d)"
      unfolding dict_set_def by (induction d) auto
    with Cons.IH[of "dict_set d (fst kv) (snd kv)"] show ?case
      by (auto simp: case_prod_unfold)
  qed
  then show ?thesis by (simp add: dict_update_def)
qed

lemma call_kwargs_of_keys:
  "fst ` set (call_kwargs_of args kwargs)
     = (fst ` set kwargs - {''context''})
       \<union> (case args of Model dumped # rest \<Rightarrow> fst ` set dumped | _ \<Rightarrow> {})"
  by (auto simp: call_kwargs_of_def dict_update_keys split: list.splits arg.splits)

text \<open>
  Claim C5, as stated, at a function that reports whether it received a keyword argument
  \<^verbatim>\<open>context\<close>, behind the handler of a tool registered with the context flag: called
  with the keyword arguments \<^verbatim>\<open>{"path": "a", "context": ctx}\<close>, and called with a model
  instance as positional argument and the keyword \<^verbatim>\<open>context\<close>, the function receives
  the context.
\<close>

theorem handler_forwards_context_counterexample:
  "snd (handler ''fs.read'' True probe [] [(''path'', PStr ''a''), (''context'', PObj ''ctx'')])
       = Inr (PBool True)
   \<and> snd (handler ''fs.read'' True probe [Model [(''path'', PStr ''a'')]]
            [(''context'', PObj ''ctx'')])
       = Inr (PBool True)"
  by (simp add: handler_def Let_def probe_def)

text \<open>
  Claim C5, amended. For every tool, with or without the context flag and for all
  positional and keyword arguments, the handler calls the underlying function with the
  arguments it received, the \<^verbatim>\<open>context\<close> keyword included. Its first log line renders
  the keyword arguments without the key \<^verbatim>\<open>context\<close>, updated with the dumped fields of
  the first positional argument when that is a model instance: the keys rendered are
  those of the keyword arguments other than \<^verbatim>\<open>context\<close> and those fields, so
  \<^verbatim>\<open>context\<close> is rendered only when such an instance has a field of that name. The
  context value that the handler reads from the keyword arguments does not enter the
  log line.
\<close>

theorem handler_forwards_kwargs:
  "snd (handler nm cx f args kwargs) = body f args kwargs
   \<and> hd (fst (handler nm cx f args kwargs))
       = log_tool_call nm (call_kwargs_of args kwargs)
           (if cx then dict_get kwargs ''context'' else PNone)
   \<and> fst ` set (call_kwargs_of args kwargs)
       = (fst ` set kwargs - {''context''})
         \<union> (case args of Model dumped # rest \<Rightarrow> fst ` set dumped | _ \<Rightarrow> {})
   \<and> ((''context'' \<in> fst ` set (call_kwargs_of args kwargs))
        = (\<exists>dumped rest. args = Model dumped # rest \<and> ''context'' \<in> fst ` set dumped))
   \<and> log_tool_call nm (call_kwargs_of args kwargs) c1
       = log_tool_call nm (call_kwargs_of args kwargs) c2"
proof -
  have a: "snd (handler nm cx f args kwargs) = body f args kwargs"
    by (simp add: handler_def Let_def split: sum.splits)
  have b: "hd (fst (handler nm cx f args kwargs))
       = log_tool_call nm (call_kwargs_of args kwargs)
           (if cx then dict_get kwargs ''context'' else PNone)"
    by (simp add: handler_def Let_def split: sum.splits)
  have c: "(''context'' \<in> fst ` set (call_kwargs_of args kwargs))
        = (\<exists>dumped rest. args = Model dumped # rest \<and> ''context'' \<in> fst ` set dumped)"
    unfolding call_kwargs_of_keys by (auto split: list.splits arg.splits)
  have d: "log_tool_call nm (call_kwargs_of args kwargs) c1
       = log_tool_call nm (call_kwargs_of args kwargs) c2"
    by (simp add: log_tool_call_def)
  from a b c d call_kwargs_of_keys[of args kwargs] show ?thesis by blast
qed

section \<open>The decoder accepts what the encoder prints\<close>

lemma scan_append:
  "scan st (a @ b) = (case scan st a of None \<Rightarrow> None | Some st' \<Rightarrow> scan st' b)"
  by (induction a arbitrary: st) (auto split: option.splits)

lemma less_16_cases:
  "(d::nat) < 16 \<Longrightarrow> d \<in> {0,1,2,3,4,5,6,7,8,9,10,11,12,13,14,15}"
  by (simp, arith)

lemma digit_char_hex: "d < 16 \<Longrightarrow> is_hex (digit_char d)"
  by (drule less_16_cases) (auto simp: digit_char_def is_hex_def)

lemma less_10_cases: "(d::nat) < 10 \<Longrightarrow> d \<in> {0,1,2,3,4,5,6,7,8,9}"
  by (simp, arith)

lemma digit_char_digit: "d < 10 \<Longrightarrow> is_digit (digit_char d)"
  by (drule less_10_cases) (auto simp: digit_char_def is_digit_def)

lemma digit_char_zero: "d < 10 \<Longrightarrow> (digit_char d = CHR ''0'') = (d = 0)"
  by (drule less_10_cases) (auto simp: digit_char_def)

declare dec_nat.simps [simp del]

lemma dec_nat_digits: "\<forall>c\<in>set (dec_nat n). is_digit c"
proof (induction n rule: dec_nat.induct)
  case (1 n)
  show ?case
  proof (cases "n < 10")
    case True
    then show ?thesis by (subst dec_nat.simps) (simp add: digit_char_digit)
  next
    case False
    with 1 show ?thesis by (subst dec_nat.simps) (simp add: digit_char_digit)
  qed
qed

lemma dec_nat_head: "\<exists>c cs. dec_nat n = c # cs \<and> ((c = CHR ''0'') = (n = 0)) \<and> (n = 0 \<longrightarrow> cs = [])"
proof (induction n rule: dec_nat.induct)
  case (1 n)
  show ?case
  proof (cases "n < 10")
    case True
    then show ?thesis by (subst dec_nat.simps) (simp add: digit_char_zero)
  next
    case False
    then have "n div 10 \<noteq> 0" by simp
    with 1 False obtain c cs where "dec_nat (n div 10) = c # cs" "c \<noteq> CHR ''0''"
      by auto
    with False show ?thesis by (subst dec_nat.simps) simp
  qed
qed

lemma scan_digits:
  "\<forall>c\<in>set cs. is_digit c \<Longrightarrow> scan (JNumber NInt stk) cs = Some (JNumber NInt stk)"
  by (induction cs) (auto simp: number_step_def)

lemma start_value_digit:
  assumes "is_digit c" "c \<noteq> CHR ''0''"
  shows "start_value stk c = Some (JNumber NInt stk)"
proof -
  from assms have "c \<in> {CHR ''1'', CHR ''2'', CHR ''3'', CHR ''4'', CHR ''5'', CHR ''6'',
      CHR ''7'', CHR ''8'', CHR ''9''}"
    by (auto simp: is_digit_def)
  then show ?thesis
    by (elim insertE emptyE) (simp_all add: start_value_def is_digit_def)
qed

lemma value_ok_dec_nat: "value_ok stk (dec_nat n)"
proof -
  from dec_nat_head[of n] obtain c cs where
    d: "dec_nat n = c # cs" and z: "(c = CHR ''0'') = (n = 0)" and e: "n = 0 \<longrightarrow> cs = []"
    by blast
  from dec_nat_digits[of n] d have dig: "is_digit c" "\<forall>x\<in>set cs. is_digit x" by auto
  show ?thesis
  proof (cases "n = 0")
    case True
    with z e d show ?thesis
      by (auto simp: value_ok_def start_value_def done_like_def)
  next
    case False
    with z have "c \<noteq> CHR ''0''" by simp
    with dig d show ?thesis
      by (auto simp: value_ok_def start_value_digit scan_digits done_like_def)
  qed
qed

lemma value_ok_dec_int: "value_ok stk (dec_int i)"
proof (cases "i < 0")
  case False
  then show ?thesis by (simp add: dec_int_def value_ok_dec_nat)
next
  case True
  then have nz: "nat (- i) \<noteq> 0" by simp
  from dec_nat_head[of "nat (- i)"] nz obtain c cs where
    d: "dec_nat (nat (- i)) = c # cs" and z: "c \<noteq> CHR ''0''"
    by auto
  from dec_nat_digits[of "nat (- i)"] d have dig: "is_digit c" "\<forall>x\<in>set cs. is_digit x" by auto
  have "scan (JNumber NMinus stk) (c # cs) = Some (JNumber NInt stk)"
    using z dig by (simp add: number_step_def scan_digits)
  with True d show ?thesis
    by (auto simp: dec_int_def value_ok_def start_value_def done_like_def)
qed

lemma scan_escape_char:
  "scan (JString key stk) (escape_char c) = Some (JString key stk)"
proof -
  have h1: "is_hex (digit_char (of_char c div 16))" if "(of_char c :: nat) < 32"
    using that by (intro digit_char_hex) simp
  have h2: "is_hex (digit_char (of_char c mod 16))"
    by (intro digit_char_hex) simp
  have z: "is_hex CHR ''0''" by (simp add: is_hex_def)
  show ?thesis
    using h1 h2 z by (auto simp: escape_char_def)
qed

lemma scan_escaped:
  "scan (JString key stk) (concat (map escape_char s)) = Some (JString key stk)"
  by (induction s) (simp_all add: scan_append scan_escape_char)

lemma scan_string_body:
  "scan (JString key stk) (concat (map escape_char s) @ [CHR 0x22])
     = Some (if key then JColon stk else JAfter stk)"
  by (simp add: scan_append scan_escaped)

lemma value_ok_string: "value_ok stk (encode_basestring s)"
  unfolding value_ok_def encode_basestring_def
  by (intro exI[of _ "CHR 0x22"] exI[of _ "concat (map escape_char s) @ [CHR 0x22]"]
        exI[of _ "JString False stk"] exI[of _ "JAfter stk"])
     (simp add: start_value_def scan_string_body done_like_def)


lemma start_value_delimiter:
  "is_ws c \<or> c = CHR '']'' \<Longrightarrow> start_value stk c = None"
  unfolding is_ws_def
  by (elim disjE) (simp_all add: start_value_def is_digit_def)

lemma start_value_not_ws:
  "start_value stk c = Some st0 \<Longrightarrow> \<not> is_ws c \<and> c \<noteq> CHR '']''"
  using start_value_delimiter[of c stk] by auto

lemma value_ok_scan:
  assumes "value_ok stk s"
  shows "\<exists>st'. scan (JValue stk) s = Some st' \<and> done_like st' stk"
  using assms start_value_not_ws unfolding value_ok_def by fastforce

lemma value_ok_scan_first:
  assumes "value_ok (InArr # stk) s"
  shows "\<exists>st'. scan (JValueOrClose stk) s = Some st' \<and> done_like st' (InArr # stk)"
  using assms start_value_not_ws unfolding value_ok_def by fastforce

lemma done_like_step:
  "done_like st stk \<Longrightarrow> c \<in> {CHR '','', CHR '']'', CHR ''}''} \<Longrightarrow> scan_step st c = after_value stk c"
  by (auto simp: done_like_def number_step_def is_digit_def)

lemma done_like_comma_arr:
  "done_like st (InArr # stk) \<Longrightarrow> scan st '', '' = Some (JValue (InArr # stk))"
  by (simp add: done_like_step after_value_def is_ws_def)

lemma done_like_close_arr:
  "done_like st (InArr # stk) \<Longrightarrow> scan st '']'' = Some (JAfter stk)"
  by (simp add: done_like_step after_value_def is_ws_def)

lemma done_like_comma_obj:
  "done_like st (InObj # stk) \<Longrightarrow> scan st '', '' = Some (JKey (InObj # stk))"
  by (simp add: done_like_step after_value_def is_ws_def)

lemma done_like_close_obj:
  "done_like st (InObj # stk) \<Longrightarrow> scan st ''}'' = Some (JAfter stk)"
  by (simp add: done_like_step after_value_def is_ws_def)

lemma join_Cons: "join sep (x # xs) = x @ concat (map ((@) sep) xs)"
  by (induction xs arbitrary: x) auto

lemma scan_more_items:
  assumes "\<forall>s\<in>set ss. value_ok (InArr # stk) s" "done_like st (InArr # stk)"
  shows "\<exists>st'. scan st (concat (map ((@) '', '') ss)) = Some st' \<and> done_like st' (InArr # stk)"
  using assms
proof (induction ss arbitrary: st)
  case Nil
  then show ?case by simp
next
  case (Cons s ss)
  from Cons.prems have "value_ok (InArr # stk) s" by simp
  from value_ok_scan[OF this] obtain st1 where
    s1: "scan (JValue (InArr # stk)) s = Some st1" and d1: "done_like st1 (InArr # stk)" by blast
  from Cons.prems have rest: "\<forall>s\<in>set ss. value_ok (InArr # stk) s" by simp
  from Cons.IH[OF rest d1] obtain st' where
    s3: "scan st1 (concat (map ((@) '', '') ss)) = Some st'" and d3: "done_like st' (InArr # stk)"
    by blast
  note comma = done_like_comma_arr[OF Cons.prems(2)]
  have e: "concat (map ((@) '', '') (s # ss)) = '', '' @ (s @ concat (map ((@) '', '') ss))"
    by simp
  have "scan st (concat (map ((@) '', '') (s # ss))) = Some st'"
    unfolding e by (simp only: scan_append comma option.case s1 s3)
  with d3 show ?case by blast
qed

lemma value_ok_array:
  assumes "\<forall>s\<in>set ss. \<forall>stk. value_ok stk s"
  shows "value_ok stk (''['' @ join '', '' ss @ '']'')"
proof (cases ss)
  case Nil
  then show ?thesis
    by (simp add: value_ok_def start_value_def done_like_def is_ws_def)
next
  case (Cons x xs)
  from assms Cons have "value_ok (InArr # stk) x" by simp
  from value_ok_scan_first[OF this] obtain st1 where
    s1: "scan (JValueOrClose stk) x = Some st1" and d1: "done_like st1 (InArr # stk)" by blast
  from assms Cons have "\<forall>s\<in>set xs. value_ok (InArr # stk) s" by simp
  from scan_more_items[OF this d1] obtain st2 where
    s2: "scan st1 (concat (map ((@) '', '') xs)) = Some st2" and d2: "done_like st2 (InArr # stk)"
    by blast
  note close = done_like_close_arr[OF d2]
  have "scan (JValueOrClose stk) ((x @ concat (map ((@) '', '') xs)) @ '']'') = Some (JAfter stk)"
    by (simp only: scan_append s1 option.case s2 close)
  then have "scan (JValueOrClose stk) (join '', '' ss @ '']'') = Some (JAfter stk)"
    unfolding Cons join_Cons .
  then show ?thesis
    by (simp add: value_ok_def start_value_def done_like_def)
qed

lemma pair_ok_scan:
  assumes "pair_ok p"
  shows "\<exists>st'. scan (JKey (InObj # stk)) p = Some st' \<and> done_like st' (InObj # stk)"
    and "\<exists>st'. scan (JKeyOrClose stk) p = Some st' \<and> done_like st' (InObj # stk)"
proof -
  from assms obtain k s where p: "p = encode_basestring k @ '': '' @ s"
    and v: "value_ok (InObj # stk) s" unfolding pair_ok_def by blast
  from value_ok_scan[OF v] obtain st' where
    s: "scan (JValue (InObj # stk)) s = Some st'" and d: "done_like st' (InObj # stk)" by blast
  have a: "scan (JString True (InObj # stk)) (concat (map escape_char k) @ [CHR 0x22])
      = Some (JColon (InObj # stk))"
    using scan_string_body[of True "InObj # stk" k] by simp
  have b: "scan (JColon (InObj # stk)) ('': '' @ s) = Some st'"
    using s by (simp add: is_ws_def)
  have "scan (JString True (InObj # stk)) ((concat (map escape_char k) @ [CHR 0x22]) @ ('': '' @ s))
      = Some st'"
    by (subst scan_append) (simp only: a option.case b)
  then have body: "scan (JString True (InObj # stk))
      (concat (map escape_char k) @ CHR 0x22 # CHR '':'' # CHR '' '' # s) = Some st'"
    by simp
  show "\<exists>st'. scan (JKey (InObj # stk)) p = Some st' \<and> done_like st' (InObj # stk)"
    using body d unfolding p encode_basestring_def by (simp add: is_ws_def)
  show "\<exists>st'. scan (JKeyOrClose stk) p = Some st' \<and> done_like st' (InObj # stk)"
    using body d unfolding p encode_basestring_def by (simp add: is_ws_def)
qed

lemma scan_more_pairs:
  assumes "\<forall>p\<in>set ps. pair_ok p" "done_like st (InObj # stk)"
  shows "\<exists>st'. scan st (concat (map ((@) '', '') ps)) = Some st' \<and> done_like st' (InObj # stk)"
  using assms
proof (induction ps arbitrary: st)
  case Nil
  then show ?case by simp
next
  case (Cons p ps)
  from Cons.prems have "pair_ok p" by simp
  from pair_ok_scan(1)[OF this] obtain st1 where
    s1: "scan (JKey (InObj # stk)) p = Some st1" and d1: "done_like st1 (InObj # stk)" by blast
  from Cons.prems have rest: "\<forall>p\<in>set ps. pair_ok p" by simp
  from Cons.IH[OF rest d1] obtain st' where
    s3: "scan st1 (concat (map ((@) '', '') ps)) = Some st'" and d3: "done_like st' (InObj # stk)"
    by blast
  note comma = done_like_comma_obj[OF Cons.prems(2)]
  have e: "concat (map ((@) '', '') (p # ps)) = '', '' @ (p @ concat (map ((@) '', '') ps))"
    by simp
  have "scan st (concat (map ((@) '', '') (p # ps))) = Some st'"
    unfolding e by (simp only: scan_append comma option.case s1 s3)
  with d3 show ?case by blast
qed

lemma value_ok_object:
  assumes "\<forall>p\<in>set ps. pair_ok p"
  shows "value_ok stk (''{'' @ join '', '' ps @ ''}'')"
proof (cases ps)
  case Nil
  then show ?thesis
    by (simp add: value_ok_def start_value_def done_like_def is_ws_def)
next
  case (Cons x xs)
  from assms Cons have "pair_ok x" by simp
  from pair_ok_scan(2)[OF this] obtain st1 where
    s1: "scan (JKeyOrClose stk) x = Some st1" and d1: "done_like st1 (InObj # stk)" by blast
  from assms Cons have "\<forall>p\<in>set xs. pair_ok p" by simp
  from scan_more_pairs[OF this d1] obtain st2 where
    s2: "scan st1 (concat (map ((@) '', '') xs)) = Some st2" and d2: "done_like st2 (InObj # stk)"
    by blast
  note close = done_like_close_obj[OF d2]
  have "scan (JKeyOrClose stk) ((x @ concat (map ((@) '', '') xs)) @ ''}'') = Some (JAfter stk)"
    by (simp only: scan_append s1 option.case s2 close)
  then have "scan (JKeyOrClose stk) (join '', '' ps @ ''}'') = Some (JAfter stk)"
    unfolding Cons join_Cons .
  then show ?thesis
    by (simp add: value_ok_def start_value_def done_like_def)
qed

lemma dumps_value_ok:
  "(\<forall>s. json_dumps v = Some s \<longrightarrow> (\<forall>stk. value_ok stk s))"
  "(\<forall>ss. dumps_items xs = Some ss \<longrightarrow> (\<forall>s\<in>set ss. \<forall>stk. value_ok stk s))"
  "(\<forall>ps. dumps_pairs kvs = Some ps \<longrightarrow> (\<forall>p\<in>set ps. pair_ok p))"
proof (induction v and xs and kvs rule: json_dumps_dumps_items_dumps_pairs.induct)
  case 1
  then show ?case by (simp add: value_ok_def start_value_def done_like_def)
next
  case (2 b)
  then show ?case by (simp add: value_ok_def start_value_def done_like_def)
next
  case (3 i)
  then show ?case by (simp add: value_ok_dec_int)
next
  case (4 s)
  then show ?case by (simp add: value_ok_string)
next
  case (5 xs)
  then show ?case by (auto split: option.splits intro!: value_ok_array[simplified])
next
  case (6 kvs)
  then show ?case by (auto split: option.splits intro!: value_ok_object[simplified])
next
  case (7 r)
  then show ?case by simp
next
  case 8
  then show ?case by simp
next
  case (9 x xs)
  then show ?case by (auto split: option.splits)
next
  case 10
  then show ?case by simp
next
  case (11 kv kvs)
  then show ?case by (auto split: option.splits simp: pair_ok_def)
qed

lemma json_loads_ok_dumps:
  assumes "json_dumps v = Some s"
  shows "json_loads_ok s"
proof -
  from dumps_value_ok(1)[of v] assms have "value_ok [] s" by blast
  from value_ok_scan[OF this] obtain st' where
    "scan (JValue []) s = Some st'" "done_like st' []" by blast
  then show ?thesis by (auto simp: json_loads_ok_def done_like_def)
qed

lemma json_loads_ok_empty_object: "json_loads_ok ''{}''"
  by (simp add: json_loads_ok_def is_ws_def start_value_def)


section \<open>Properties of tool-call sanitization\<close>

lemma dict_get_set: "dict_get (dict_set d k v) k' = (if k' = k then v else dict_get d k')"
  by (simp add: dict_get_def dict_set_def update_conv')

lemma set_arguments_function:
  "dict_get (set_arguments call function text) ''function''
     = PDict (dict_set function ''arguments'' (PStr text))"
  by (simp add: set_arguments_def dict_get_set)

lemma set_arguments_fixed:
  "json_loads_ok text
   \<Longrightarrow> sanitize_tool_call (set_arguments call function text) = Inr (set_arguments call function text)"
  by (simp add: sanitize_tool_call_def set_arguments_function dict_get_set)

lemma set_arguments_ok:
  "json_loads_ok text \<Longrightarrow> arguments_ok (set_arguments call function text)"
  by (simp add: arguments_ok_def set_arguments_function dict_get_set)

lemma sanitize_cases:
  assumes "sanitize_tool_call call = Inr call'"
  shows "(call' = call \<and> arguments_ok call)
         \<or> (\<exists>function text. call' = set_arguments call function text \<and> json_loads_ok text)"
proof (cases "dict_get call ''function''")
  case (PDict fn)
  note f = this
  show ?thesis
  proof (cases "dict_get fn ''arguments''")
    case PNone
    with f assms have "call' = set_arguments call fn ''{}''"
      by (simp add: sanitize_tool_call_def)
    with json_loads_ok_empty_object show ?thesis by blast
  next
    case (PStr args)
    show ?thesis
    proof (cases "json_loads_ok args")
      case True
      with f PStr assms show ?thesis by (simp add: sanitize_tool_call_def arguments_ok_def)
    next
      case False
      with f PStr assms have "call' = set_arguments call fn ''{}''"
        by (simp add: sanitize_tool_call_def)
      with json_loads_ok_empty_object show ?thesis by blast
    qed
  next
    case (PDict args)
    with f assms obtain js where t: "json_dumps (PDict args) = Some js"
      and c: "call' = set_arguments call fn js"
      by (auto simp: sanitize_tool_call_def simp del: json_dumps.simps split: option.splits)
    from json_loads_ok_dumps[OF t] c show ?thesis by blast
  qed (use f assms in \<open>simp_all add: sanitize_tool_call_def arguments_ok_def\<close>)
qed (use assms in \<open>simp_all add: sanitize_tool_call_def arguments_ok_def\<close>)

text \<open>
  Claim C8. Sanitization is idempotent: when sanitizing a call item returns a call,
  sanitizing that call again returns it unchanged, so the arguments string after two
  applications is the one after the first.
\<close>

theorem sanitize_tool_call_idempotent:
  assumes "sanitize_tool_call call = Inr call'"
  shows "sanitize_tool_call call' = Inr call'"
proof -
  from sanitize_cases[OF assms] show ?thesis
  proof
    assume "call' = call \<and> arguments_ok call"
    with assms show ?thesis by simp
  next
    assume "\<exists>function text. call' = set_arguments call function text \<and> json_loads_ok text"
    then show ?thesis by (auto simp: set_arguments_fixed)
  qed
qed

lemma sanitize_arguments_ok:
  assumes "sanitize_tool_call call = Inr call'"
  shows "arguments_ok call'"
  using sanitize_cases[OF assms] by (auto simp: set_arguments_ok)

lemma normalize_loop_ok:
  "normalize_loop items calls = Inr calls' \<Longrightarrow> list_all arguments_ok calls
   \<Longrightarrow> list_all arguments_ok calls'"
proof (induction items arbitrary: calls)
  case Nil
  then show ?case by simp
next
  case (Cons item items)
  show ?case
  proof (cases item)
    case (PDict d)
    with Cons.prems obtain call where c: "sanitize_tool_call d = Inr call"
      and l: "normalize_loop items (calls @ [call]) = Inr calls'"
      by (auto split: sum.splits)
    from sanitize_arguments_ok[OF c] Cons.prems(2) have "list_all arguments_ok (calls @ [call])"
      by simp
    from Cons.IH[OF l this] show ?thesis .
  qed (use Cons in auto)
qed

lemma normalize_tool_calls_ok:
  "normalize_tool_calls v = Inr calls \<Longrightarrow> list_all arguments_ok calls"
  by (cases v) (auto simp: normalize_tool_calls_def dest: normalize_loop_ok)

lemmas json_eval = json_loads_ok_def is_ws_def start_value_def is_digit_def is_hex_def
  number_step_def after_value_def encode_basestring_def escape_char_def dec_int_def
  digit_char_def

lemmas tape_eval = sanitize_tool_call_def set_arguments_def dict_get_def dict_set_def
  normalize_tool_calls_def append_tool_call_entry_def payload_get_def select_messages_def
  select_step_def append_tool_result_entry_def build_tool_result_message_def
  render_tool_result_def append_message_entry_def Let_def

lemma sanitize_search_dict:
  "sanitize_tool_call (search_call (PDict [(''q'', PStr ''x'')]))
     = Inr (search_call (PStr (''{'' @ [CHR 0x22] @ ''q'' @ [CHR 0x22] @ '': '' @ [CHR 0x22] @ ''x'' @ [CHR 0x22] @ ''}'')))"
  by (simp add: search_call_def tape_eval json_eval)

lemma sanitize_search_bad:
  "sanitize_tool_call (search_call (PStr ''not json'')) = Inr (search_call (PStr ''{}''))"
  by (simp add: search_call_def tape_eval json_eval)

lemma sanitize_search_list:
  "sanitize_tool_call (search_call (PList [PInt 1])) = Inr (search_call (PList [PInt 1]))"
  by (simp add: search_call_def tape_eval json_eval)

lemma sanitize_search_number_text:
  "sanitize_tool_call (search_call (PStr ''42'')) = Inr (search_call (PStr ''42''))"
  by (simp add: search_call_def tape_eval json_eval)

text \<open>
  Claim C8 at two call items: arguments stored as the mapping \<^verbatim>\<open>{"q": "x"}\<close> and as the
  text \<^verbatim>\<open>not json\<close>.
\<close>

theorem sanitize_tool_call_idempotent_witness:
  "sanitize_tool_call (search_call (PDict [(''q'', PStr ''x'')]))
     = Inr (search_call (PStr (''{'' @ [CHR 0x22] @ ''q'' @ [CHR 0x22] @ '': '' @ [CHR 0x22] @ ''x'' @ [CHR 0x22] @ ''}'')))
   \<and> sanitize_tool_call (search_call (PStr (''{'' @ [CHR 0x22] @ ''q'' @ [CHR 0x22] @ '': '' @ [CHR 0x22] @ ''x'' @ [CHR 0x22] @ ''}'')))
     = Inr (search_call (PStr (''{'' @ [CHR 0x22] @ ''q'' @ [CHR 0x22] @ '': '' @ [CHR 0x22] @ ''x'' @ [CHR 0x22] @ ''}'')))
   \<and> sanitize_tool_call (search_call (PStr ''not json'')) = Inr (search_call (PStr ''{}''))
   \<and> sanitize_tool_call (search_call (PStr ''{}'')) = Inr (search_call (PStr ''{}''))"
  using sanitize_search_dict sanitize_tool_call_idempotent[OF sanitize_search_dict]
    sanitize_search_bad sanitize_tool_call_idempotent[OF sanitize_search_bad]
  by simp

text \<open>
  Arguments of another shape, here the list \<^verbatim>\<open>[1]\<close>, pass through
  \<^verbatim>\<open>_sanitize_tool_call\<close> as they are: it has no branch for them, although its docstring
  says that it ensures a valid JSON string.
\<close>

lemma sanitize_other_shape_unchanged:
  "sanitize_tool_call (search_call (PList [PInt 1])) = Inr (search_call (PList [PInt 1]))
   \<and> arguments_of (search_call (PList [PInt 1])) = PList [PInt 1]"
  by (simp add: sanitize_search_list) (simp add: arguments_of_def search_call_def dict_get_def)

text \<open>
  Claim C3, as stated, at two tapes. A \<^verbatim>\<open>tool_call\<close> entry whose call item has the text
  \<^verbatim>\<open>42\<close> as arguments: the compiler emits the item with that text, which is valid JSON
  and not an object. A \<^verbatim>\<open>message\<close> entry whose payload is an assistant message with a
  tool call whose arguments are the mapping \<^verbatim>\<open>{"q": "x"}\<close>: the compiler emits the message
  as stored, with the arguments still a mapping and not a string.
\<close>

theorem emitted_arguments_counterexample:
  "select_messages [tool_call_entry [PDict (search_call (PStr ''42''))]]
     = Inr [assistant_message [search_call (PStr ''42'')]]
   \<and> arguments_of (search_call (PStr ''42'')) = PStr ''42''
   \<and> select_messages
         [\<lparr> kind = ''message'',
            payload = assistant_message [search_call (PDict [(''q'', PStr ''x'')])] \<rparr>]
       = Inr [assistant_message [search_call (PDict [(''q'', PStr ''x'')])]]
   \<and> arguments_of (search_call (PDict [(''q'', PStr ''x'')])) = PDict [(''q'', PStr ''x'')]"
proof -
  have a: "select_messages [tool_call_entry [PDict (search_call (PStr ''42''))]]
     = Inr [assistant_message [search_call (PStr ''42'')]]"
    by (simp add: select_messages_def select_step_def tool_call_entry_def append_tool_call_entry_def
      payload_get_def dict_get_def normalize_tool_calls_def sanitize_search_number_text
      assistant_message_def)
  have b: "select_messages
         [\<lparr> kind = ''message'',
            payload = assistant_message [search_call (PDict [(''q'', PStr ''x'')])] \<rparr>]
       = Inr [assistant_message [search_call (PDict [(''q'', PStr ''x'')])]]"
    by (simp add: select_messages_def select_step_def append_message_entry_def
        assistant_message_def)
  from a b show ?thesis
    by (simp add: arguments_of_def search_call_def dict_get_def)
qed

lemma dumps_dict_brace: "json_dumps (PDict kvs) = Some s \<Longrightarrow> \<exists>r. s = CHR ''{'' # r"
  by (auto split: option.splits)

lemma sanitize_replaced:
  assumes "sanitize_tool_call call = Inr call'" "dict_get call ''function'' = PDict fn"
    "replaced_shape (dict_get fn ''arguments'')"
  shows "\<exists>r. arguments_of call' = PStr (CHR ''{'' # r) \<and> json_loads_ok (CHR ''{'' # r)"
proof (cases "dict_get fn ''arguments''")
  case (PDict args)
  with assms obtain js where t: "json_dumps (PDict args) = Some js"
    and c: "call' = set_arguments call fn js"
    by (auto simp: sanitize_tool_call_def simp del: json_dumps.simps split: option.splits)
  from dumps_dict_brace[OF t] obtain r where "js = CHR ''{'' # r" by blast
  with json_loads_ok_dumps[OF t] c show ?thesis
    by (simp add: arguments_of_def set_arguments_function dict_get_set)
next
  case PNone
  with assms have "call' = set_arguments call fn ''{}''"
    by (simp add: sanitize_tool_call_def)
  with json_loads_ok_empty_object show ?thesis
    by (simp add: arguments_of_def set_arguments_function dict_get_set)
next
  case (PStr args)
  with assms have "call' = set_arguments call fn ''{}''"
    by (simp add: sanitize_tool_call_def replaced_shape_def)
  with json_loads_ok_empty_object show ?thesis
    by (simp add: arguments_of_def set_arguments_function dict_get_set)
qed (use assms in \<open>simp_all add: replaced_shape_def\<close>)

lemma sanitize_sanitizable:
  assumes "sanitize_tool_call call = Inr call'" "dict_get call ''function'' = PDict fn"
    "sanitizable (dict_get fn ''arguments'')"
  shows "\<exists>t. arguments_of call' = PStr t \<and> json_loads_ok t"
proof (cases "replaced_shape (dict_get fn ''arguments'')")
  case True
  from sanitize_replaced[OF assms(1,2) this] show ?thesis by blast
next
  case False
  with assms(3) obtain args where a: "dict_get fn ''arguments'' = PStr args" and v: "json_loads_ok args"
    by (auto simp: sanitizable_def replaced_shape_def split: pyval.splits)
  with assms(1,2) have "call' = call" by (simp add: sanitize_tool_call_def)
  with assms(2) a v show ?thesis by (simp add: arguments_of_def)
qed

lemma normalize_loop_source:
  "normalize_loop items calls0 = Inr calls
   \<Longrightarrow> \<forall>c\<in>set calls. c \<in> set calls0 \<or> (\<exists>d. PDict d \<in> set items \<and> sanitize_tool_call d = Inr c)"
proof (induction items arbitrary: calls0)
  case Nil
  then show ?case by simp
next
  case (Cons item items)
  show ?case
  proof (cases item)
    case (PDict d)
    with Cons.prems obtain call where c: "sanitize_tool_call d = Inr call"
      and l: "normalize_loop items (calls0 @ [call]) = Inr calls"
      by (auto split: sum.splits)
    from Cons.IH[OF l] c PDict show ?thesis by auto
  qed (use Cons in auto)
qed

lemma append_tool_call_entry_source:
  assumes "append_tool_call_entry messages e = Inr (messages', calls)" "c \<in> set calls"
  shows "\<exists>items d. payload_get (payload e) ''calls'' = Inr (PList items) \<and> PDict d \<in> set items
           \<and> sanitize_tool_call d = Inr c"
proof -
  from assms(1) obtain v where p: "payload_get (payload e) ''calls'' = Inr v"
    and n: "normalize_tool_calls v = Inr calls"
    by (auto simp: append_tool_call_entry_def split: sum.splits)
  from n assms(2) obtain items where v: "v = PList items" and l: "normalize_loop items [] = Inr calls"
    by (cases v) (auto simp: normalize_tool_calls_def)
  from normalize_loop_source[OF l] assms(2) obtain d where
    "PDict d \<in> set items" "sanitize_tool_call d = Inr c" by auto
  with p v show ?thesis by blast
qed

lemma append_tool_call_entry_shape:
  assumes "append_tool_call_entry messages e = Inr (messages', calls)"
  shows "messages' = (if calls = [] then messages else messages @ [assistant_message calls])"
  using assms
  by (auto simp: append_tool_call_entry_def assistant_message_def split: sum.splits if_splits)

text \<open>
  Claim C3, amended. Every call item that the compiler emits for a \<^verbatim>\<open>tool_call\<close> entry,
  in the \<^verbatim>\<open>tool_calls\<close> list of the entry's assistant message, which is the list it
  holds as pending calls, is the sanitized form of a mapping item of the entry's
  \<^verbatim>\<open>calls\<close> list. When the function of that stored item is a mapping and its arguments
  are a mapping, a string, or \<^verbatim>\<open>None\<close> or absent, the arguments of the emitted item are
  a string that the JSON decoder accepts; when the stored arguments were a mapping,
  \<^verbatim>\<open>None\<close> or absent, or a string that the decoder rejects, that string is the text of
  a JSON object. The payload of a \<^verbatim>\<open>message\<close> entry is emitted as stored, tool calls
  included.
\<close>

theorem emitted_arguments_sanitized:
  "(append_tool_call_entry messages e = Inr (messages', calls) \<longrightarrow>
      messages' = (if calls = [] then messages else messages @ [assistant_message calls])
      \<and> select_step (messages, pending) (e\<lparr>kind := ''tool_call''\<rparr>) = Inr (messages', calls)
      \<and> (\<forall>c\<in>set calls.
            \<exists>items d. payload_get (payload e) ''calls'' = Inr (PList items)
              \<and> PDict d \<in> set items \<and> sanitize_tool_call d = Inr c
              \<and> (\<forall>fn. dict_get d ''function'' = PDict fn \<and> sanitizable (dict_get fn ''arguments'')
                    \<longrightarrow> (\<exists>t. arguments_of c = PStr t \<and> json_loads_ok t))
              \<and> (\<forall>fn. dict_get d ''function'' = PDict fn \<and> replaced_shape (dict_get fn ''arguments'')
                    \<longrightarrow> (\<exists>r. arguments_of c = PStr (CHR ''{'' # r)
                               \<and> json_loads_ok (CHR ''{'' # r)))))
   \<and> select_step (messages, pending) \<lparr> kind = ''message'', payload = PDict stored \<rparr>
       = Inr (messages @ [PDict stored], pending)"
proof -
  have a: "select_step (messages, pending) (e\<lparr>kind := ''tool_call''\<rparr>) = append_tool_call_entry messages e"
    by (simp add: select_step_def append_tool_call_entry_def)
  have b: "select_step (messages, pending) \<lparr> kind = ''message'', payload = PDict stored \<rparr>
       = Inr (messages @ [PDict stored], pending)"
    by (simp add: select_step_def append_message_entry_def)
  have c: "\<exists>items d. payload_get (payload e) ''calls'' = Inr (PList items)
              \<and> PDict d \<in> set items \<and> sanitize_tool_call d = Inr c
              \<and> (\<forall>fn. dict_get d ''function'' = PDict fn \<and> sanitizable (dict_get fn ''arguments'')
                    \<longrightarrow> (\<exists>t. arguments_of c = PStr t \<and> json_loads_ok t))
              \<and> (\<forall>fn. dict_get d ''function'' = PDict fn \<and> replaced_shape (dict_get fn ''arguments'')
                    \<longrightarrow> (\<exists>r. arguments_of c = PStr (CHR ''{'' # r)
                               \<and> json_loads_ok (CHR ''{'' # r)))"
    if h: "append_tool_call_entry messages e = Inr (messages', calls)" and m: "c \<in> set calls" for c
  proof -
    from append_tool_call_entry_source[OF h m] obtain items d where
      s: "payload_get (payload e) ''calls'' = Inr (PList items)" "PDict d \<in> set items"
        "sanitize_tool_call d = Inr c" by blast
    from s(3) have "\<forall>fn. dict_get d ''function'' = PDict fn \<and> sanitizable (dict_get fn ''arguments'')
                    \<longrightarrow> (\<exists>t. arguments_of c = PStr t \<and> json_loads_ok t)"
      by (auto dest: sanitize_sanitizable)
    moreover from s(3) have "\<forall>fn. dict_get d ''function'' = PDict fn \<and> replaced_shape (dict_get fn ''arguments'')
                    \<longrightarrow> (\<exists>r. arguments_of c = PStr (CHR ''{'' # r)
                               \<and> json_loads_ok (CHR ''{'' # r))"
      by (auto dest: sanitize_replaced)
    ultimately show ?thesis using s by blast
  qed
  show ?thesis
    using a b c append_tool_call_entry_shape[of messages e messages' calls] by auto
qed

theorem emitted_arguments_sanitized_witness:
  "append_tool_call_entry [] (tool_call_entry [PDict (search_call (PStr ''not json''))])
     = Inr ([assistant_message [search_call (PStr ''{}'')]], [search_call (PStr ''{}'')])
   \<and> select_step ([], []) (tool_call_entry [PDict (search_call (PStr ''not json''))])
       = Inr ([assistant_message [search_call (PStr ''{}'')]], [search_call (PStr ''{}'')])
   \<and> (\<exists>items d. payload_get (payload (tool_call_entry [PDict (search_call (PStr ''not json''))]))
                   ''calls'' = Inr (PList items)
          \<and> PDict d \<in> set items \<and> sanitize_tool_call d = Inr (search_call (PStr ''{}'')))
   \<and> sanitize_tool_call (search_call (PStr ''not json'')) = Inr (search_call (PStr ''{}''))
   \<and> dict_get (search_call (PStr ''not json'')) ''function''
       = PDict [(''name'', PStr ''search''), (''arguments'', PStr ''not json'')]
   \<and> sanitizable (dict_get [(''name'', PStr ''search''), (''arguments'', PStr ''not json'')] ''arguments'')
   \<and> replaced_shape (dict_get [(''name'', PStr ''search''), (''arguments'', PStr ''not json'')] ''arguments'')
   \<and> arguments_of (search_call (PStr ''{}'')) = PStr ''{}''
   \<and> json_loads_ok ''{}''"
proof -
  let ?e = "tool_call_entry [PDict (search_call (PStr ''not json''))]"
  have a: "append_tool_call_entry [] ?e
     = Inr ([assistant_message [search_call (PStr ''{}'')]], [search_call (PStr ''{}'')])"
    by (simp add: append_tool_call_entry_def tool_call_entry_def payload_get_def dict_get_def
        normalize_tool_calls_def sanitize_search_bad assistant_message_def)
  have k: "?e\<lparr>kind := ''tool_call''\<rparr> = ?e" by (simp add: tool_call_entry_def)
  have b: "dict_get (search_call (PStr ''not json'')) ''function''
       = PDict [(''name'', PStr ''search''), (''arguments'', PStr ''not json'')]"
    by (simp add: search_call_def dict_get_def)
  have c: "sanitizable (dict_get [(''name'', PStr ''search''), (''arguments'', PStr ''not json'')] ''arguments'')"
    "replaced_shape (dict_get [(''name'', PStr ''search''), (''arguments'', PStr ''not json'')] ''arguments'')"
    by (simp_all add: sanitizable_def replaced_shape_def dict_get_def json_eval)
  have d: "arguments_of (search_call (PStr ''{}'')) = PStr ''{}''"
    by (simp add: arguments_of_def search_call_def dict_get_def)
  note t = emitted_arguments_sanitized[where messages = "[]" and e = ?e
      and messages' = "[assistant_message [search_call (PStr ''{}'')]]"
      and calls = "[search_call (PStr ''{}'')]" and pending = "[]" and stored = "[]"]
  from t a k have s: "select_step ([], []) ?e
       = Inr ([assistant_message [search_call (PStr ''{}'')]], [search_call (PStr ''{}'')])"
    by simp
  from t a have "\<exists>items d. payload_get (payload ?e) ''calls'' = Inr (PList items)
          \<and> PDict d \<in> set items \<and> sanitize_tool_call d = Inr (search_call (PStr ''{}''))"
    by auto
  with a s b c d sanitize_search_bad json_loads_ok_empty_object show ?thesis by simp
qed

section \<open>Properties of the tape compiler\<close>

text \<open>
  The example of the specification: a call with the arguments \<^verbatim>\<open>{"q": "x"}\<close> followed
  by the result \<^verbatim>\<open>ok\<close>.
\<close>

lemma spec_example_tape:
  "select_messages [tool_call_entry [PDict (search_call (PDict [(''q'', PStr ''x'')]))],
                    tool_result_entry (PList [PStr ''ok''])]
   = Inr [assistant_message [search_call (PStr (''{'' @ [CHR 0x22] @ ''q'' @ [CHR 0x22] @ '': '' @ [CHR 0x22] @ ''x'' @ [CHR 0x22] @ ''}''))],
          PDict [(''role'', PStr ''tool''), (''content'', PStr ''ok''), (''tool_call_id'', PStr ''1''),
                 (''name'', PStr ''search'')]]"
proof -
  have a: "build_tool_result_message (PStr ''ok'') [search_call a] 0
      = [(''role'', PStr ''tool''), (''content'', PStr ''ok''), (''tool_call_id'', PStr ''1''),
                 (''name'', PStr ''search'')]" for a
    by (simp add: build_tool_result_message_def render_tool_result_def Let_def search_call_def
        dict_get_def dict_set_def)
  show ?thesis
    by (simp add: select_messages_def select_step_def tool_call_entry_def tool_result_entry_def
      append_tool_call_entry_def append_tool_result_entry_def
      payload_get_def dict_get_def normalize_tool_calls_def sanitize_search_dict assistant_message_def
      a enumerate_eq_zip)
qed









section \<open>The compiler and the objects of the tape\<close>

text \<open>
  Claim C1 at the tape of the specification's example. Compiling it returns the two
  messages (the objects at 9 and 10) and leaves a store in which the function dict of
  the tape's call item holds the encoded text as its arguments: the payload of the
  \<^verbatim>\<open>tool_call\<close> entry read before the call has the mapping \<^verbatim>\<open>{"q": "x"}\<close> there, read
  after the call it has the string.
\<close>

theorem select_messages_mutates_tape:
  "select_messages_st tape_store tape_entries = Inr ([SRef 9, SRef 10], tape_store_after)
   \<and> read_value tape_store (SRef 4)
       = Some (PDict [(''calls'', PList [PDict (search_call (PDict [(''q'', PStr ''x'')]))])])
   \<and> read_value tape_store_after (SRef 4)
       = Some (PDict [(''calls'', PList [PDict (search_call (PStr arguments_text))])])"
  by code_simp

text \<open>
  The messages read from the store are the ones that the compiler's functions on values
  give for this tape.
\<close>

lemma tape_store_messages:
  "map (read_value tape_store_after) [SRef 9, SRef 10]
     = [Some (assistant_message [search_call (PStr arguments_text)]),
        Some (PDict [(''role'', PStr ''tool''), (''content'', PStr ''ok''),
                     (''tool_call_id'', PStr ''1''), (''name'', PStr ''search'')])]"
  by code_simp

end
